theory Spec2Isabelle
  imports Main "HOL-Library.Word"
begin

unbundle bit_operations_syntax

section \<open>Machine types and failures\<close>

text \<open>
  Go's \<open>uint8\<close> is an 8-bit word and \<open>uint\<close> a 64-bit word (a 64-bit platform), so
  address arithmetic wraps as in the source. Go's \<open>int\<close> counters (\<open>ticks\<close>, \<open>Cycle\<close>,
  \<open>oamIndex\<close>, \<open>sampleOffset\<close>) are modelled as unbounded integers: they start at zero and
  move by one per step, so the 64-bit bounds play no role in what is proved.
  Every runtime panic of the source is a value of type \<open>error\<close>.
\<close>

type_synonym u8 = "8 word"
type_synonym u64 = "64 word"

datatype error =
    FIFOOverflow
  | FIFOIndexOutOfRange
  | DivideByZero
  | IndexOutOfRange
  | NegativeShift
  | TypeAssertion

section \<open>Pixel queue\<close>

text \<open>
  Modelled from the spec: the pixel FIFO of the fetcher (type \<open>FIFO\<close> of package \<open>ppu\<close>, with
  \<open>Size\<close>, \<open>Push\<close>, \<open>Mix\<close> and \<open>Clear\<close>) is not among the source files. The spec describes it
  as a bounded sequence of colour indices of capacity 16, whose \<open>Mix\<close> replaces or combines
  the element at a given offset with a sprite pixel without changing the queue length.
  The head of the list is the next pixel to leave the queue. How \<open>Mix\<close> combines the two
  pixels is not described, so the combining function \<open>mixPixel\<close> is a parameter. Pushing
  onto a full queue and mixing outside the queue are failures.
\<close>

type_synonym FIFO = "u8 list"

text \<open>Modelled from the spec: the capacity of the queue, 16 slots.\<close>

definition FIFO_Capacity :: nat where
  "FIFO_Capacity = 16"

text \<open>Modelled from the spec: \<open>Size\<close>, the number of queued pixels.\<close>

definition FIFO_Size :: "FIFO \<Rightarrow> nat" where
  "FIFO_Size q = length q"

text \<open>Modelled from the spec: \<open>Clear\<close>, which empties the queue.\<close>

definition FIFO_Clear :: "FIFO \<Rightarrow> FIFO" where
  "FIFO_Clear q = []"

text \<open>Modelled from the spec: \<open>Push\<close>, which enqueues one pixel at the tail of a queue that
  is not full.\<close>

definition FIFO_Push :: "FIFO \<Rightarrow> u8 \<Rightarrow> error + FIFO" where
  "FIFO_Push q x = (if length q < FIFO_Capacity then Inr (q @ [x]) else Inl FIFOOverflow)"

text \<open>Modelled from the spec: \<open>Mix\<close>, which combines the pixel at offset \<open>i\<close> from the head
  with a sprite pixel and keeps the length of the queue.\<close>

definition FIFO_Mix :: "(u8 \<Rightarrow> u8 \<Rightarrow> u8) \<Rightarrow> FIFO \<Rightarrow> nat \<Rightarrow> u8 \<Rightarrow> error + FIFO" where
  "FIFO_Mix mixPixel q i x =
     (if i < length q then Inr (q[i := mixPixel (q ! i) x]) else Inl FIFOIndexOutOfRange)"

section \<open>Pixel fetcher (ppu/fetcher.go)\<close>

text \<open>
  The constants of package \<open>states\<close> are used by name in the source; the package itself is
  not among the source files. They are taken to be pairwise distinct values of the single
  type \<open>states.State\<close>.
\<close>

datatype State =
    ReadTileID
  | ReadTileData0
  | ReadTileData1
  | PushToFIFO
  | ReadSpriteID
  | ReadSpriteFlags
  | ReadSpriteData0
  | ReadSpriteData1
  | MixInFIFO
  | OAMSearch
  | PixelTransfer
  | HBlank
  | VBlank

text \<open>
  Of the \<open>Sprite\<close> struct (declared outside the source files given) the fetcher only reads
  the field \<open>Address\<close>.
\<close>

record Sprite =
  Address :: u64

text \<open>
  The fetcher. \<open>vRAM\<close> is the memory collaborator seen through its \<open>Read\<close> method; the
  arrays \<open>[8]uint8\<close> are lists, of length 8 in every well-formed fetcher.
\<close>

record Fetcher =
  Enabled :: bool
  fifo :: FIFO
  vRAM :: "u64 \<Rightarrow> u8"
  ticks :: int
  state :: State
  oldState :: State
  mapAddr :: u64
  dataAddr :: u64
  tileOffset :: u8
  tileLine :: u8
  signedID :: bool
  tileID :: u8
  tileData :: "u8 list"
  sprite :: Sprite
  spriteID :: u8
  spriteFlags :: u8
  spriteOffset :: u8
  spriteLine :: u8
  spriteData :: "u8 list"

definition wf_Fetcher :: "Fetcher \<Rightarrow> bool" where
  "wf_Fetcher f \<longleftrightarrow> length (tileData f) = 8 \<and> length (spriteData f) = 8"

definition Start :: "Fetcher \<Rightarrow> u64 \<Rightarrow> u64 \<Rightarrow> u8 \<Rightarrow> u8 \<Rightarrow> bool \<Rightarrow> Fetcher" where
  "Start f mapAddr' dataAddr' tileOffset' tileLine' signedID' =
     f\<lparr>mapAddr := mapAddr', dataAddr := dataAddr',
       tileOffset := tileOffset', tileLine := tileLine',
       signedID := signedID',
       Fetcher.state := ReadTileID,
       Enabled := True,
       fifo := FIFO_Clear (fifo f)\<rparr>"

definition FetchSprite :: "Fetcher \<Rightarrow> Sprite \<Rightarrow> u8 \<Rightarrow> u8 \<Rightarrow> Fetcher" where
  "FetchSprite f sprite' spriteOffset' spriteLine' =
     f\<lparr>sprite := sprite',
       spriteOffset := spriteOffset', spriteLine := spriteLine',
       oldState := Fetcher.state f,
       Fetcher.state := ReadSpriteID\<rparr>"

text \<open>
  One iteration of the loop of \<open>ReadTileLine\<close>, for bit position \<open>bitPos\<close>. The flag masks
  \<open>SpriteFlipX\<close> and \<open>SpriteFlipY\<close> are declared outside the source files given and are
  parameters.
\<close>

definition ReadTileLine_bit :: "u8 \<Rightarrow> u8 \<Rightarrow> u8 \<Rightarrow> u8 \<Rightarrow> nat \<Rightarrow> u8 list \<Rightarrow> u8 list" where
  "ReadTileLine_bit SpriteFlipX bitPlane flags pixelData bitPos data =
     (let pixelIndex = (if flags AND SpriteFlipX \<noteq> 0 then bitPos else 7 - bitPos)
      in if bitPlane = 0
         then data[pixelIndex := drop_bit bitPos pixelData AND 1]
         else data[pixelIndex := (data ! pixelIndex) OR push_bit 1 (drop_bit bitPos pixelData AND 1)])"

text \<open>The byte that \<open>ReadTileLine\<close> reads: address computation, then one read.\<close>

definition ReadTileLine_pixelData ::
  "u8 \<Rightarrow> Fetcher \<Rightarrow> u8 \<Rightarrow> u64 \<Rightarrow> u8 \<Rightarrow> bool \<Rightarrow> u8 \<Rightarrow> u8 \<Rightarrow> u8" where
  "ReadTileLine_pixelData SpriteFlipY f bitPlane tileDataAddr tileID' signedID' tileLine' flags =
     (let offset = (if signedID' then tileDataAddr + scast tileID' * 16
                    else tileDataAddr + ucast tileID' * 16);
          tileLine'' = (if flags AND SpriteFlipY \<noteq> 0 then 7 - tileLine' else tileLine');
          addr = offset + ucast tileLine'' * 2
      in vRAM f (addr + ucast bitPlane))"

definition ReadTileLine ::
  "u8 \<Rightarrow> u8 \<Rightarrow> Fetcher \<Rightarrow> u8 \<Rightarrow> u64 \<Rightarrow> u8 \<Rightarrow> bool \<Rightarrow> u8 \<Rightarrow> u8 \<Rightarrow> u8 list \<Rightarrow> u8 list" where
  "ReadTileLine SpriteFlipX SpriteFlipY f bitPlane tileDataAddr tileID' signedID' tileLine' flags data =
     (let pixelData =
            ReadTileLine_pixelData SpriteFlipY f bitPlane tileDataAddr tileID' signedID' tileLine' flags
      in fold (ReadTileLine_bit SpriteFlipX bitPlane flags pixelData) [7, 6, 5, 4, 3, 2, 1, 0] data)"

text \<open>The two loops of \<open>Tick\<close> over the eight slots, stopping at the first failure.\<close>

fun FIFO_PushAll :: "FIFO \<Rightarrow> u8 list \<Rightarrow> error + FIFO" where
  "FIFO_PushAll q [] = Inr q"
| "FIFO_PushAll q (x # xs) =
     (case FIFO_Push q x of Inl e \<Rightarrow> Inl e | Inr q' \<Rightarrow> FIFO_PushAll q' xs)"

fun FIFO_MixAll :: "(u8 \<Rightarrow> u8 \<Rightarrow> u8) \<Rightarrow> FIFO \<Rightarrow> nat list \<Rightarrow> u8 list \<Rightarrow> error + FIFO" where
  "FIFO_MixAll mixPixel q [] data = Inr q"
| "FIFO_MixAll mixPixel q (i # is) data =
     (case FIFO_Mix mixPixel q i (data ! i) of
        Inl e \<Rightarrow> Inl e
      | Inr q' \<Rightarrow> FIFO_MixAll mixPixel q' is data)"

text \<open>The \<open>switch\<close> of \<open>Tick\<close>: one step of the state machine.\<close>

definition Fetcher_step ::
  "u8 \<Rightarrow> u8 \<Rightarrow> (u8 \<Rightarrow> u8 \<Rightarrow> u8) \<Rightarrow> Fetcher \<Rightarrow> error + Fetcher" where
  "Fetcher_step SpriteFlipX SpriteFlipY mixPixel f =
     (case Fetcher.state f of
        ReadTileID \<Rightarrow>
          Inr (f\<lparr>tileID := vRAM f (mapAddr f + ucast (tileOffset f)),
                 Fetcher.state := ReadTileData0\<rparr>)
      | ReadTileData0 \<Rightarrow>
          Inr (f\<lparr>tileData := ReadTileLine SpriteFlipX SpriteFlipY f 0 (dataAddr f) (tileID f)
                                (signedID f) (tileLine f) 0 (tileData f),
                 Fetcher.state := ReadTileData1\<rparr>)
      | ReadTileData1 \<Rightarrow>
          Inr (f\<lparr>tileData := ReadTileLine SpriteFlipX SpriteFlipY f 1 (dataAddr f) (tileID f)
                                (signedID f) (tileLine f) 0 (tileData f),
                 Fetcher.state := PushToFIFO\<rparr>)
      | PushToFIFO \<Rightarrow>
          (if FIFO_Size (fifo f) \<le> 8
           then (case FIFO_PushAll (fifo f) (map (\<lambda>i. tileData f ! i) [0, 1, 2, 3, 4, 5, 6, 7]) of
                   Inl e \<Rightarrow> Inl e
                 | Inr q \<Rightarrow>
                     Inr (f\<lparr>fifo := q,
                            tileOffset := (tileOffset f + 1) mod 32,
                            Fetcher.state := ReadTileID\<rparr>))
           else Inr f)
      | ReadSpriteID \<Rightarrow>
          Inr (f\<lparr>spriteID := vRAM f (Address (sprite f) + 2),
                 Fetcher.state := ReadSpriteFlags\<rparr>)
      | ReadSpriteFlags \<Rightarrow>
          Inr (f\<lparr>spriteFlags := vRAM f (Address (sprite f) + 3),
                 Fetcher.state := ReadSpriteData0\<rparr>)
      | ReadSpriteData0 \<Rightarrow>
          Inr (f\<lparr>spriteData := ReadTileLine SpriteFlipX SpriteFlipY f 0 0x8000 (spriteID f)
                                  False (spriteLine f) (spriteFlags f) (spriteData f),
                 Fetcher.state := ReadSpriteData1\<rparr>)
      | ReadSpriteData1 \<Rightarrow>
          Inr (f\<lparr>spriteData := ReadTileLine SpriteFlipX SpriteFlipY f 1 0x8000 (spriteID f)
                                  False (spriteLine f) (spriteFlags f) (spriteData f),
                 Fetcher.state := MixInFIFO\<rparr>)
      | MixInFIFO \<Rightarrow>
          (if FIFO_Size (fifo f) < 8 then Inr f
           else (case FIFO_MixAll mixPixel (fifo f) [0, 1, 2, 3, 4, 5, 6, 7] (spriteData f) of
                   Inl e \<Rightarrow> Inl e
                 | Inr q \<Rightarrow> Inr (f\<lparr>fifo := q, Fetcher.state := oldState f\<rparr>)))
      | _ \<Rightarrow> Inr f)"

text \<open>
  \<open>Tick\<close>. \<open>ClockFactor\<close> is a package variable of the source, initialised to 2; the
  fetcher takes its current value as the argument \<open>cf\<close>.
\<close>

definition ClockFactor :: int where
  "ClockFactor = 2"

definition Fetcher_Tick ::
  "int \<Rightarrow> u8 \<Rightarrow> u8 \<Rightarrow> (u8 \<Rightarrow> u8 \<Rightarrow> u8) \<Rightarrow> Fetcher \<Rightarrow> error + Fetcher" where
  "Fetcher_Tick cf SpriteFlipX SpriteFlipY mixPixel f =
     (if \<not> Enabled f then Inr f
      else let f1 = f\<lparr>Fetcher.ticks := Fetcher.ticks f + 1\<rparr>
           in if Fetcher.ticks f1 < cf then Inr f1
              else Fetcher_step SpriteFlipX SpriteFlipY mixPixel (f1\<lparr>Fetcher.ticks := 0\<rparr>))"

section \<open>Scanline controller (ppu/ppu.go)\<close>

text \<open>
  The display sink \<open>lcd.Display\<close> is an external collaborator; the calls the controller
  makes on it are recorded, in order, in the trace \<open>LCD\<close>.
\<close>

datatype lcd_event =
    LCD_Blank
  | LCD_Write int
  | LCD_HBlank
  | LCD_VBlank

text \<open>
  The queue of the controller is the \<open>FIFO\<close> of package \<open>fifo\<close>, whose elements are Go
  interface values: \<open>Pop\<close> hands one out and the controller asserts that it holds an
  \<open>int\<close>. The values that occur hold an \<open>int\<close> or a \<open>uint8\<close>.
\<close>

datatype item =
    Item_int int
  | Item_uint8 u8

text \<open>
  Modelled from the spec: the queue of package \<open>fifo\<close> is not among the source files. The spec
  describes it as a bounded sequence of capacity 16 (\<open>fifo.New(16, 8)\<close> in the source), whose
  consumer removes one element at a time and signals emptiness distinctly from a value. The
  head of the list is the next element to leave the queue.
\<close>

type_synonym fifo_FIFO = "item list"

text \<open>Modelled from the spec: \<open>Push\<close>, which enqueues one element at the tail of a queue that
  is not full.\<close>

definition fifo_Push :: "fifo_FIFO \<Rightarrow> item \<Rightarrow> error + fifo_FIFO" where
  "fifo_Push q x = (if length q < 16 then Inr (q @ [x]) else Inl FIFOOverflow)"

text \<open>Modelled from the spec: \<open>Pop\<close>, which removes the element at the head, or signals that
  the queue is empty.\<close>

definition fifo_Pop :: "fifo_FIFO \<Rightarrow> (item \<times> fifo_FIFO) option" where
  "fifo_Pop q = (case q of [] \<Rightarrow> None | x # q' \<Rightarrow> Some (x, q'))"

fun fifo_PushAll :: "fifo_FIFO \<Rightarrow> item list \<Rightarrow> error + fifo_FIFO" where
  "fifo_PushAll q [] = Inr q"
| "fifo_PushAll q (x # xs) =
     (case fifo_Push q x of Inl e \<Rightarrow> Inl e | Inr q' \<Rightarrow> fifo_PushAll q' xs)"

definition LCDCBGTileMapDisplayeSelect :: u8 where
  "LCDCBGTileMapDisplayeSelect = 0x08"

definition LCDCBGWindowTileDataSelect :: u8 where
  "LCDCBGWindowTileDataSelect = 0x10"

definition LCDCDisplayEnable :: u8 where
  "LCDCDisplayEnable = 0x80"

text \<open>
  The controller. \<open>MMU\<close> is the memory collaborator seen through \<open>Read\<close>, \<open>FIFO\<close> the
  queue of package \<open>fifo\<close>. The embedded \<open>Fetcher\<close> is touched by none of the methods below
  and is left out. The addresses the methods read lie in the tile
  map and tile data areas, never in the registers that \<open>New\<close> maps into the same address
  space.
\<close>

record PPU =
  MMU :: "u64 \<Rightarrow> u8"
  FIFO :: fifo_FIFO
  Cycle :: int
  LCD :: "lcd_event list"
  LCDC :: u8
  STAT :: u8
  SCY :: u8
  SCX :: u8
  LY :: u8
  LYC :: u8
  WY :: u8
  WX :: u8
  BGP :: u8
  OBP0 :: u8
  OBP1 :: u8
  ticks :: int
  state :: State
  oamIndex :: int

definition PPU_Tick :: "int \<Rightarrow> PPU \<Rightarrow> PPU" where
  "PPU_Tick cf p =
     (let p1 = p\<lparr>Cycle := Cycle p + 1, PPU.ticks := PPU.ticks p + 1\<rparr>
      in if PPU.ticks p1 < cf then p1
         else let p2 = p1\<lparr>PPU.ticks := 0\<rparr>;
                  p3 = (if LCDC p2 AND LCDCDisplayEnable = 0
                        then p2\<lparr>LCD := LCD p2 @ [LCD_Blank]\<rparr> else p2)
              in (case PPU.state p3 of
                    OAMSearch \<Rightarrow>
                      (let p4 = p3\<lparr>oamIndex := oamIndex p3 + 1\<rparr>
                       in if oamIndex p4 \<ge> 40 then p4\<lparr>PPU.state := PixelTransfer\<rparr> else p4)
                  | _ \<Rightarrow> p3))"

definition PPU_Read :: "PPU \<Rightarrow> u64 \<Rightarrow> u8" where
  "PPU_Read p addr = MMU p addr"

text \<open>
  \<open>Pop\<close>. The type assertion \<open>pixel.(int)\<close> panics on an element that does not hold an
  \<open>int\<close>; an \<open>int\<close> goes to the sink through the conversion \<open>lcd.Pixel\<close>, and the trace
  records the \<open>int\<close> converted.
\<close>

definition PPU_Pop :: "PPU \<Rightarrow> error + PPU \<times> u64" where
  "PPU_Pop p =
     (case fifo_Pop (FIFO p) of
        Some (pixel, q) \<Rightarrow>
          (case pixel of
             Item_int v \<Rightarrow> Inr (p\<lparr>FIFO := q, LCD := LCD p @ [LCD_Write v]\<rparr>, 1)
           | Item_uint8 v \<Rightarrow> Inl TypeAssertion)
      | None \<Rightarrow> Inr (p, 0))"

definition FetchTileNumber :: "PPU \<Rightarrow> u64 \<Rightarrow> u64 \<Rightarrow> u8" where
  "FetchTileNumber p x y =
     (let bgMapOffset = (if LCDC p AND LCDCBGTileMapDisplayeSelect > 0 then 0x9c00 else 0x9800);
          bgMapIndex = ucast (SCX p) div 8 + x div 8 + (y div 8) * 32
      in PPU_Read p (bgMapOffset + bgMapIndex))"

text \<open>The pixel of bit position \<open>bit\<close> of a tile row, as \<open>Decode\<close> and \<open>Run\<close> compute it.\<close>

definition row_pixel :: "u8 \<Rightarrow> u8 \<Rightarrow> nat \<Rightarrow> u8" where
  "row_pixel lineLo lineHi b =
     push_bit 1 (drop_bit b lineHi AND 1) OR (drop_bit b lineLo AND 1)"

definition Decode :: "PPU \<Rightarrow> u64 \<Rightarrow> u8 list" where
  "Decode p addr =
     (let lineLo = PPU_Read p addr;
          lineHi = PPU_Read p (addr + 1)
      in fold (\<lambda>b line. line @ [row_pixel lineLo lineHi b]) [7, 6, 5, 4, 3, 2, 1, 0] [])"

text \<open>Two consecutive calls \<open>x += p.Pop()\<close>.\<close>

definition Pop2 :: "PPU \<Rightarrow> u64 \<Rightarrow> error + PPU \<times> u64" where
  "Pop2 p x =
     (case PPU_Pop p of
        Inl e \<Rightarrow> Inl e
      | Inr (p1, n1) \<Rightarrow>
          (case PPU_Pop p1 of
             Inl e \<Rightarrow> Inl e
           | Inr (p2, n2) \<Rightarrow> Inr (p2, x + n1 + n2)))"

text \<open>
  The body of the pixel-transfer loop of \<open>Run\<close>: eight pops interleaved with the three
  reads, eight pushes, one \<open>Tick\<close>. \<open>Run\<close> pushes each pixel as a \<open>uint8\<close>. Under which
  representation the absent queue holds a pushed \<open>uint8\<close> is the parameter \<open>held\<close>: it is
  \<open>Item_uint8\<close> if the queue keeps the interface value it is given.
\<close>

definition Run_transfer_body ::
  "int \<Rightarrow> (u8 \<Rightarrow> item) \<Rightarrow> PPU \<Rightarrow> u64 \<Rightarrow> error + PPU \<times> u64" where
  "Run_transfer_body cf held p x =
     (case Pop2 p x of
        Inl e \<Rightarrow> Inl e
      | Inr (p1, x1) \<Rightarrow>
          (let y = ucast (SCY p1 + LY p1);
               tileNb = FetchTileNumber p1 x1 y
           in case Pop2 p1 x1 of
                Inl e \<Rightarrow> Inl e
              | Inr (p2, x2) \<Rightarrow>
                  (let tileLine' = y mod 8;
                       tileDataOffset = (if LCDC p2 AND LCDCBGWindowTileDataSelect > 0
                                         then 0x8000 + ucast tileNb * 16
                                         else 0x9000 + ucast tileNb * 16);
                       addr = tileDataOffset + tileLine' * 2;
                       lineLo = PPU_Read p2 addr
                   in case Pop2 p2 x2 of
                        Inl e \<Rightarrow> Inl e
                      | Inr (p3, x3) \<Rightarrow>
                          (let lineHi = PPU_Read p3 (addr + 1)
                           in case Pop2 p3 x3 of
                                Inl e \<Rightarrow> Inl e
                              | Inr (p4, x4) \<Rightarrow>
                                  (case fifo_PushAll (FIFO p4)
                                          (map (\<lambda>b. held (row_pixel lineLo lineHi b))
                                             [7, 6, 5, 4, 3, 2, 1, 0]) of
                                     Inl e \<Rightarrow> Inl e
                                   | Inr q \<Rightarrow> Inr (PPU_Tick cf (p4\<lparr>FIFO := q\<rparr>), x4))))))"

text \<open>
  The loops of \<open>Run\<close>. The pixel-transfer loop is given fuel, and \<open>None\<close> is the loop still
  running when the fuel is spent. The loop over the visible lines ends because \<open>LY\<close> grows by
  one per line. The lines printed to standard output are left out.
\<close>

fun Run_transfer ::
  "nat \<Rightarrow> int \<Rightarrow> (u8 \<Rightarrow> item) \<Rightarrow> PPU \<Rightarrow> u64 \<Rightarrow> (error + PPU) option" where
  "Run_transfer fuel cf held p x =
     (if x < 160
      then (case fuel of
              0 \<Rightarrow> None
            | Suc fuel' \<Rightarrow>
                (case Run_transfer_body cf held p x of
                   Inl e \<Rightarrow> Some (Inl e)
                 | Inr (p', x') \<Rightarrow> Run_transfer fuel' cf held p' x'))
      else Some (Inr p))"

fun Run_lines ::
  "nat \<Rightarrow> nat \<Rightarrow> int \<Rightarrow> (u8 \<Rightarrow> item) \<Rightarrow> PPU \<Rightarrow> (error + PPU) option" where
  "Run_lines 0 fuel cf held p = (if LY p < 144 then None else Some (Inr p))"
| "Run_lines (Suc n) fuel cf held p =
     (if LY p < 144
      then (case Run_transfer fuel cf held p 0 of
              None \<Rightarrow> None
            | Some (Inl e) \<Rightarrow> Some (Inl e)
            | Some (Inr p') \<Rightarrow>
                Run_lines n fuel cf held (p'\<lparr>LCD := LCD p' @ [LCD_HBlank], LY := LY p' + 1\<rparr>))
      else Some (Inr p))"

text \<open>
  One pass of the outer loop of \<open>Run\<close>: the visible lines, the vertical blank, the empty
  loop that takes \<open>LY\<close> to 154, and the reset of \<open>LY\<close>. At most 144 lines are drawn in a pass.
\<close>

definition Run_frame :: "nat \<Rightarrow> int \<Rightarrow> (u8 \<Rightarrow> item) \<Rightarrow> PPU \<Rightarrow> (error + PPU) option" where
  "Run_frame fuel cf held p =
     (case Run_lines 144 fuel cf held p of
        None \<Rightarrow> None
      | Some (Inl e) \<Rightarrow> Some (Inl e)
      | Some (Inr p1) \<Rightarrow>
          (let p2 = p1\<lparr>LCD := LCD p1 @ [LCD_VBlank]\<rparr>;
               p3 = (if LY p2 < 154 then p2\<lparr>LY := 154\<rparr> else p2)
           in Some (Inr (p3\<lparr>LY := 0\<rparr>))))"

text \<open>
  \<open>Run\<close> repeats that pass for ever and returns only by a panic: \<open>Run_frames n\<close> is the
  controller after \<open>n\<close> passes.
\<close>

fun Run_frames ::
  "nat \<Rightarrow> nat \<Rightarrow> int \<Rightarrow> (u8 \<Rightarrow> item) \<Rightarrow> PPU \<Rightarrow> (error + PPU) option" where
  "Run_frames 0 fuel cf held p = Some (Inr p)"
| "Run_frames (Suc n) fuel cf held p =
     (case Run_frame fuel cf held p of
        None \<Rightarrow> None
      | Some (Inl e) \<Rightarrow> Some (Inl e)
      | Some (Inr p') \<Rightarrow> Run_frames n fuel cf held p')"

section \<open>Wave channel (apu/wave.go)\<close>

definition OutputShift :: "nat list" where
  "OutputShift = [4, 0, 1, 2]"

text \<open>
  Modelled from the spec: the mask \<open>NRx4RestartSound\<close> is declared outside the source files
  given; the spec gives the restart trigger as the high bit of the channel control byte.
\<close>

definition NRx4RestartSound :: u8 where
  "NRx4RestartSound = 0x80"

text \<open>
  Modelled from the spec: the mask \<open>NR30SoundOn\<close> is declared outside the source files given;
  the spec speaks of the channel's on/off control bit, which the field comment of \<open>NRx0\<close> in
  the source places at bit 7.
\<close>

definition NR30SoundOn :: u8 where
  "NR30SoundOn = 0x80"

text \<open>\<open>Pattern\<close> is the byte store of the wave table (\<open>Pattern.Bytes\<close>, 16 bytes).\<close>

record WaveTable =
  NRx0 :: u8
  NRx1 :: u8
  NRx2 :: u8
  NRx3 :: u8
  NRx4 :: u8
  Pattern :: "u8 list"
  enabled :: bool
  sample :: u8
  sampleOffset :: int
  ticks :: u64

text \<open>Go's \<open>/\<close> and \<open>%\<close> on \<open>int\<close> truncate towards zero.\<close>

definition go_quot :: "int \<Rightarrow> int \<Rightarrow> int" where
  "go_quot a b = (if (a < 0) = (b < 0) then \<bar>a\<bar> div \<bar>b\<bar> else - (\<bar>a\<bar> div \<bar>b\<bar>))"

definition go_rem :: "int \<Rightarrow> int \<Rightarrow> int" where
  "go_rem a b = a - b * go_quot a b"

definition rawFreq :: "WaveTable \<Rightarrow> u64" where
  "rawFreq w = push_bit 8 (ucast (NRx4 w) AND 7) OR ucast (NRx3 w)"

text \<open>
  The sample loop of \<open>Tick\<close>, \<open>n\<close> iterations left. The constants \<open>SoundOutRate\<close> (the
  number of iterations) and \<open>GameBoyRate\<close> are declared outside the source files given and
  are parameters. A division by zero, an index outside the wave table and a negative shift
  count are the panics of the loop body.
\<close>

fun Tick_loop :: "nat \<Rightarrow> u64 \<Rightarrow> u64 \<Rightarrow> WaveTable \<Rightarrow> error + WaveTable" where
  "Tick_loop 0 GameBoyRate freq w = Inr w"
| "Tick_loop (Suc n) GameBoyRate freq w =
     (let w1 = w\<lparr>WaveTable.ticks := WaveTable.ticks w + 1\<rparr>
      in if freq * 32 = 0 then Inl DivideByZero
         else if WaveTable.ticks w1 \<ge> GameBoyRate div (freq * 32)
         then (let w2 = w1\<lparr>sampleOffset := go_rem (sampleOffset w1 + 1) 32,
                            WaveTable.ticks := 0\<rparr>;
                   sampleByte = go_quot (sampleOffset w2) 2;
                   sampleShift = 4 - go_rem (sampleOffset w2) 2 * 4
               in if sampleByte < 0 \<or> sampleByte \<ge> int (length (Pattern w2))
                  then Inl IndexOutOfRange
                  else if sampleShift < 0 then Inl NegativeShift
                  else (let w3 = w2\<lparr>sample := drop_bit (nat sampleShift)
                                                  (Pattern w2 ! nat sampleByte) AND 0xf\<rparr>;
                            w4 = w3\<lparr>sample := drop_bit
                                       (OutputShift ! unat (drop_bit 5 (NRx2 w3 AND 0x60)))
                                       (sample w3)\<rparr>
                        in Tick_loop n GameBoyRate freq w4))
         else Tick_loop n GameBoyRate freq w1)"

text \<open>The restart block at the head of \<open>Tick\<close>.\<close>

definition Tick_restart :: "WaveTable \<Rightarrow> WaveTable" where
  "Tick_restart w =
     (if NRx4 w AND NRx4RestartSound \<noteq> 0
      then w\<lparr>NRx4 := NRx4 w AND NOT NRx4RestartSound, enabled := True, WaveTable.ticks := 0\<rparr>
      else w)"

text \<open>\<open>Tick\<close>: the channel after the call and the sample returned.\<close>

definition WaveTable_Tick :: "nat \<Rightarrow> u64 \<Rightarrow> WaveTable \<Rightarrow> error + WaveTable \<times> u8" where
  "WaveTable_Tick SoundOutRate GameBoyRate w0 =
     (let w = Tick_restart w0
      in if \<not> enabled w then Inr (w, 0)
         else if NRx0 w AND NR30SoundOn = 0 then Inr (w, 0)
         else if 2048 - rawFreq w = 0 then Inl DivideByZero
         else (let freq = 65536 div (2048 - rawFreq w)
               in case Tick_loop SoundOutRate GameBoyRate freq w of
                    Inl e \<Rightarrow> Inl e
                  | Inr w' \<Rightarrow> Inr (w', sample w')))"

section \<open>Notions used to state the properties\<close>

subsection \<open>Tile rows\<close>

text \<open>
  The row of a tile as the specification words it: pixel column \<open>i\<close> takes bit \<open>7 - i\<close> of
  the high plane as its high bit and bit \<open>7 - i\<close> of the low plane as its low bit.
\<close>

definition spec_tile_row :: "u8 \<Rightarrow> u8 \<Rightarrow> u8 list" where
  "spec_tile_row lo hi =
     map (\<lambda>i. 2 * of_bool (bit hi (7 - i)) + of_bool (bit lo (7 - i))) [0, 1, 2, 3, 4, 5, 6, 7]"

text \<open>What one loop iteration of \<open>ReadTileLine\<close> stores, with the bit read as a truth value.\<close>

definition plane_bit :: "u8 \<Rightarrow> u8 \<Rightarrow> nat \<Rightarrow> u8 \<Rightarrow> u8" where
  "plane_bit bitPlane pixelData b old =
     (if bitPlane = 0 then of_bool (bit pixelData b)
      else old OR push_bit 1 (of_bool (bit pixelData b)))"

subsection \<open>Sequences of fetcher ticks\<close>

text \<open>\<open>n\<close> consecutive calls of \<open>Tick\<close>, stopping at the first failure.\<close>

fun Fetcher_Ticks ::
  "nat \<Rightarrow> int \<Rightarrow> u8 \<Rightarrow> u8 \<Rightarrow> (u8 \<Rightarrow> u8 \<Rightarrow> u8) \<Rightarrow> Fetcher \<Rightarrow> error + Fetcher" where
  "Fetcher_Ticks 0 cf SpriteFlipX SpriteFlipY mixPixel f = Inr f"
| "Fetcher_Ticks (Suc n) cf SpriteFlipX SpriteFlipY mixPixel f =
     (case Fetcher_Tick cf SpriteFlipX SpriteFlipY mixPixel f of
        Inl e \<Rightarrow> Inl e
      | Inr f' \<Rightarrow> Fetcher_Ticks n cf SpriteFlipX SpriteFlipY mixPixel f')"

text \<open>
  A divided tick: the calls of \<open>Tick\<close> up to and including the next qualifying one, the one
  on which the accumulator reaches \<open>cf\<close>.
\<close>

definition Fetcher_DividedTick ::
  "int \<Rightarrow> u8 \<Rightarrow> u8 \<Rightarrow> (u8 \<Rightarrow> u8 \<Rightarrow> u8) \<Rightarrow> Fetcher \<Rightarrow> error + Fetcher" where
  "Fetcher_DividedTick cf SpriteFlipX SpriteFlipY mixPixel f =
     Fetcher_Ticks (nat (cf - Fetcher.ticks f)) cf SpriteFlipX SpriteFlipY mixPixel f"

text \<open>The accumulator invariant of the two clock-divided components.\<close>

definition Fetcher_ticks_ok :: "int \<Rightarrow> Fetcher \<Rightarrow> bool" where
  "Fetcher_ticks_ok cf f \<longleftrightarrow> 0 \<le> Fetcher.ticks f \<and> Fetcher.ticks f < cf"

definition PPU_ticks_ok :: "int \<Rightarrow> PPU \<Rightarrow> bool" where
  "PPU_ticks_ok cf p \<longleftrightarrow> 0 \<le> PPU.ticks p \<and> PPU.ticks p < cf"

text \<open>
  The fetchers that can arise: a fetcher with zeroed pixel buffers (as \<open>New\<close> leaves them),
  then any sequence of \<open>Start\<close>, \<open>FetchSprite\<close> and \<open>Tick\<close>, with the controller acting on
  the shared queue and the processor writing memory in between.
\<close>

inductive reachable :: "int \<Rightarrow> u8 \<Rightarrow> u8 \<Rightarrow> (u8 \<Rightarrow> u8 \<Rightarrow> u8) \<Rightarrow> Fetcher \<Rightarrow> bool"
  for cf :: int and SpriteFlipX :: u8 and SpriteFlipY :: u8 and mixPixel :: "u8 \<Rightarrow> u8 \<Rightarrow> u8" where
  reachable_new:
    "tileData f = [0, 0, 0, 0, 0, 0, 0, 0] \<Longrightarrow> spriteData f = [0, 0, 0, 0, 0, 0, 0, 0] \<Longrightarrow>
     reachable cf SpriteFlipX SpriteFlipY mixPixel f"
| reachable_Start:
    "reachable cf SpriteFlipX SpriteFlipY mixPixel f \<Longrightarrow>
     reachable cf SpriteFlipX SpriteFlipY mixPixel (Start f m d tileOffset' tileLine' signedID')"
| reachable_FetchSprite:
    "reachable cf SpriteFlipX SpriteFlipY mixPixel f \<Longrightarrow>
     reachable cf SpriteFlipX SpriteFlipY mixPixel (FetchSprite f sprite' spriteOffset' spriteLine')"
| reachable_Tick:
    "reachable cf SpriteFlipX SpriteFlipY mixPixel f \<Longrightarrow>
     Fetcher_Tick cf SpriteFlipX SpriteFlipY mixPixel f = Inr f' \<Longrightarrow>
     reachable cf SpriteFlipX SpriteFlipY mixPixel f'"
| reachable_queue:
    "reachable cf SpriteFlipX SpriteFlipY mixPixel f \<Longrightarrow>
     reachable cf SpriteFlipX SpriteFlipY mixPixel (f\<lparr>fifo := q\<rparr>)"
| reachable_memory:
    "reachable cf SpriteFlipX SpriteFlipY mixPixel f \<Longrightarrow>
     reachable cf SpriteFlipX SpriteFlipY mixPixel (f\<lparr>vRAM := m\<rparr>)"

text \<open>A well-formed fetcher whose tile and sprite buffers hold colour indices only.\<close>

definition two_bit_buffers :: "Fetcher \<Rightarrow> bool" where
  "two_bit_buffers f \<longleftrightarrow>
     wf_Fetcher f \<and> (\<forall>x\<in>set (tileData f). x \<le> 3) \<and> (\<forall>x\<in>set (spriteData f). x \<le> 3)"

subsection \<open>Display enable\<close>

definition display_off :: "PPU \<Rightarrow> PPU" where
  "display_off p = p\<lparr>LCDC := LCDC p AND NOT LCDCDisplayEnable\<rparr>"

definition display_on :: "PPU \<Rightarrow> PPU" where
  "display_on p = p\<lparr>LCDC := LCDC p OR LCDCDisplayEnable\<rparr>"

text \<open>The sink calls other than \<open>Blank\<close>, in order.\<close>

definition not_blank :: "lcd_event list \<Rightarrow> lcd_event list" where
  "not_blank es = filter (\<lambda>e. e \<noteq> LCD_Blank) es"

text \<open>
  Two controllers that agree on everything but the display-enable bit and the \<open>Blank\<close> calls
  made on the sink: in particular on \<open>Cycle\<close>, the tick accumulator, the phase, \<open>oamIndex\<close>,
  \<open>LY\<close> and the queue.
\<close>

definition same_but_blank :: "PPU \<Rightarrow> PPU \<Rightarrow> bool" where
  "same_but_blank p q \<longleftrightarrow>
     q = p\<lparr>LCDC := LCDC q, LCD := LCD q\<rparr> \<and>
     LCDC p AND NOT LCDCDisplayEnable = LCDC q AND NOT LCDCDisplayEnable \<and>
     not_blank (LCD p) = not_blank (LCD q)"

text \<open>
  The eight elements that an iteration of the transfer loop pushes, from the controller
  after the first, the second and the third pair of pops and the \<open>x\<close> after the first.
\<close>

definition transfer_row :: "(u8 \<Rightarrow> item) \<Rightarrow> PPU \<Rightarrow> u64 \<Rightarrow> PPU \<Rightarrow> PPU \<Rightarrow> item list" where
  "transfer_row held p1 x1 p2 p3 =
     (let y = ucast (SCY p1 + LY p1);
          tileNb = FetchTileNumber p1 x1 y;
          tileLine' = y mod 8;
          tileDataOffset = (if LCDC p2 AND LCDCBGWindowTileDataSelect > 0
                            then 0x8000 + ucast tileNb * 16
                            else 0x9000 + ucast tileNb * 16);
          addr = tileDataOffset + tileLine' * 2;
          lineLo = PPU_Read p2 addr;
          lineHi = PPU_Read p3 (addr + 1)
      in map (\<lambda>b. held (row_pixel lineLo lineHi b)) [7, 6, 5, 4, 3, 2, 1, 0])"

text \<open>Two outcomes of a step that agree on a panic and are related on success.\<close>

abbreviation same_step :: "error + PPU \<times> u64 \<Rightarrow> error + PPU \<times> u64 \<Rightarrow> bool" where
  "same_step \<equiv> rel_sum (=) (\<lambda>a b. same_but_blank (fst a) (fst b) \<and> snd a = snd b)"

fun same_outcome :: "(error + PPU) option \<Rightarrow> (error + PPU) option \<Rightarrow> bool" where
  "same_outcome None None = True"
| "same_outcome (Some (Inl e)) (Some (Inl e')) = (e = e')"
| "same_outcome (Some (Inr p)) (Some (Inr q)) = same_but_blank p q"
| "same_outcome _ _ = False"

subsection \<open>Concrete inputs\<close>

text \<open>
  A memory holding the plane bytes \<open>0b10110000\<close> and \<open>0b11000000\<close> of the first row of
  tile 0, and a sprite entry at \<open>0xFE00\<close> whose flag byte has bit 5 set.
\<close>

definition example_memory :: "u64 \<Rightarrow> u8" where
  "example_memory a =
     (if a = 0x8000 then 0xB0 else if a = 0x8001 then 0xC0 else if a = 0xFE03 then 0x20 else 0)"

definition example_mixPixel :: "u8 \<Rightarrow> u8 \<Rightarrow> u8" where
  "example_mixPixel old new = (if new = 0 then old else new)"

definition example_Fetcher :: Fetcher where
  "example_Fetcher =
     \<lparr>Enabled = False, fifo = [], vRAM = example_memory, ticks = 0,
      state = ReadTileID, oldState = ReadTileID, mapAddr = 0, dataAddr = 0,
      tileOffset = 0, tileLine = 0, signedID = False, tileID = 0,
      tileData = [0, 0, 0, 0, 0, 0, 0, 0], sprite = \<lparr>Address = 0\<rparr>,
      spriteID = 0, spriteFlags = 0, spriteOffset = 0, spriteLine = 0,
      spriteData = [0, 0, 0, 0, 0, 0, 0, 0]\<rparr>"

definition example_PPU :: PPU where
  "example_PPU =
     \<lparr>MMU = example_memory, FIFO = [Item_int 3], Cycle = 0, LCD = [], LCDC = 0x11, STAT = 0,
      SCY = 0, SCX = 0, LY = 0, LYC = 0, WY = 0, WX = 0, BGP = 0, OBP0 = 0, OBP1 = 0,
      ticks = 1, state = PixelTransfer, oamIndex = 40\<rparr>"

text \<open>A queue that holds a pushed \<open>uint8\<close> as the \<open>int\<close> of the same value.\<close>

definition held_as_int :: "u8 \<Rightarrow> item" where
  "held_as_int x = Item_int (uint x)"

definition example_WaveTable :: WaveTable where
  "example_WaveTable =
     \<lparr>NRx0 = 0, NRx1 = 0, NRx2 = 0x20, NRx3 = 0xFF, NRx4 = 0x87,
      Pattern = [0x01, 0x23, 0x45, 0x67, 0x89, 0xAB, 0xCD, 0xEF,
                 0xFE, 0xDC, 0xBA, 0x98, 0x76, 0x54, 0x32, 0x10],
      enabled = False, sample = 9, sampleOffset = 5, ticks = 7\<rparr>"

section \<open>Wave channel: the frequency divisor\<close>

lemma rawFreq_mask: "rawFreq w AND mask 11 = rawFreq w"
proof -
  have seven: "(7::u64) = mask 3" by (simp add: mask_eq_exp_minus_1)
  show ?thesis
    unfolding rawFreq_def seven
    by (rule bit_word_eqI) (auto simp: bit_simps dest: bit_imp_le_length)
qed

lemma rawFreq_le: "rawFreq w \<le> 2047"
proof -
  have "rawFreq w AND mask 11 \<le> mask 11" by (rule word_and_le1)
  then have "rawFreq w \<le> mask 11" by (simp only: rawFreq_mask)
  then show ?thesis by (simp add: mask_eq_exp_minus_1)
qed

lemma unat_rawFreq: "unat (rawFreq w) \<le> 2047"
  using rawFreq_le[of w] by (simp add: word_le_nat_alt)

lemma unat_divisor: "unat (2048 - rawFreq w) = 2048 - unat (rawFreq w)"
proof -
  have "rawFreq w \<le> 2048" using rawFreq_le[of w] by (rule order_trans) simp
  then show ?thesis by (simp add: unat_sub)
qed

lemma divisor_nonzero: "2048 - rawFreq w \<noteq> 0"
proof
  assume "2048 - rawFreq w = 0"
  then have "unat (2048 - rawFreq w) = 0" by simp
  then show False using unat_rawFreq[of w] unat_divisor[of w] by arith
qed

lemma unat_freq: "unat (65536 div (2048 - rawFreq w)) = 65536 div (2048 - unat (rawFreq w))"
  by (simp add: unat_div unat_divisor)

lemma freq_bounds:
  "32 \<le> unat (65536 div (2048 - rawFreq w)) \<and> unat (65536 div (2048 - rawFreq w)) \<le> 65536"
proof -
  let ?d = "2048 - unat (rawFreq w)"
  have d: "1 \<le> ?d" "?d \<le> 2048" using unat_rawFreq[of w] by arith+
  have "65536 div 2048 \<le> 65536 div ?d" using d by (intro div_le_mono2) auto
  moreover have "65536 div ?d \<le> (65536::nat)" by (rule div_le_dividend)
  ultimately show ?thesis by (simp add: unat_freq)
qed

lemma freq32_nonzero: "65536 div (2048 - rawFreq w) * 32 \<noteq> 0"
proof
  let ?f = "65536 div (2048 - rawFreq w)"
  assume z: "?f * 32 = 0"
  have "unat (?f * 32) = unat ?f * 32 mod 2 ^ 64"
    by (simp add: unat_word_ariths)
  also have "\<dots> = unat ?f * 32" using freq_bounds[of w] by simp
  finally have "unat (?f * 32) \<ge> 1024" using freq_bounds[of w] by simp
  then show False by (simp only: z) simp
qed

lemma Tick_loop_no_div:
  "freq * 32 \<noteq> 0 \<Longrightarrow> Tick_loop n g freq w \<noteq> Inl DivideByZero"
proof (induction n arbitrary: w)
  case 0
  show ?case by simp
next
  case (Suc n)
  show ?case
    using Suc.prems Suc.IH
    by (simp add: Let_def del: Tick_loop.simps(2) add: Tick_loop.simps(2)[of n g freq w])
qed

text \<open>
  C9. For every content of the registers, the 11-bit raw frequency field built from the low
  three bits of \<open>NRx4\<close> and the eight bits of \<open>NRx3\<close> is at most 2047, the divisor
  \<open>2048 - rawFreq\<close> is at least 1, the second divisor \<open>freq * 32\<close> is not zero either, and
  \<open>Tick\<close> never stops on a division by zero.
\<close>

theorem frequency_divisor_never_zero:
  "unat (rawFreq w) \<le> 2047 \<and>
   1 \<le> unat (2048 - rawFreq w) \<and>
   2048 - rawFreq w \<noteq> 0 \<and>
   65536 div (2048 - rawFreq w) * 32 \<noteq> 0 \<and>
   WaveTable_Tick SoundOutRate GameBoyRate w \<noteq> Inl DivideByZero"
proof -
  have "1 \<le> unat (2048 - rawFreq w)"
    using unat_rawFreq[of w] unat_divisor[of w] by arith
  moreover have "WaveTable_Tick SoundOutRate GameBoyRate w \<noteq> Inl DivideByZero"
  proof -
    let ?w = "Tick_restart w"
    have l: "Tick_loop SoundOutRate GameBoyRate (65536 div (2048 - rawFreq ?w)) ?w \<noteq> Inl DivideByZero"
      by (rule Tick_loop_no_div[OF freq32_nonzero])
    have ne: "rawFreq ?w \<noteq> 2048" using divisor_nonzero[of ?w] by simp
    show ?thesis
      using l ne by (auto simp: WaveTable_Tick_def Let_def split: sum.splits)
  qed
  ultimately show ?thesis
    using unat_rawFreq[of w] divisor_nonzero[of w] freq32_nonzero[of w] by blast
qed

theorem frequency_divisor_never_zero_witness:
  "unat (rawFreq example_WaveTable) = 2047 \<and>
   unat (2048 - rawFreq example_WaveTable) = 1 \<and>
   WaveTable_Tick 190 4194304 example_WaveTable \<noteq> Inl DivideByZero"
  using frequency_divisor_never_zero[of example_WaveTable 190 4194304]
  by (simp add: rawFreq_def example_WaveTable_def)

section \<open>Wave channel: restart and silence\<close>

lemma Tick_loop_keeps_registers:
  "Tick_loop n g freq w = Inr w' \<Longrightarrow> NRx4 w' = NRx4 w \<and> enabled w' = enabled w"
proof (induction n arbitrary: w)
  case 0
  then show ?case by simp
next
  case (Suc n)
  show ?case
    using Suc.prems Suc.IH
    by (simp add: Let_def del: Tick_loop.simps(2) add: Tick_loop.simps(2)[of n g freq w]
          split: if_splits)
qed

lemma restart_bit_cleared: "(x AND NOT NRx4RestartSound) AND NRx4RestartSound = (0::u8)"
  by (simp add: and.assoc)

lemma Tick_restart_set:
  "NRx4 w AND NRx4RestartSound \<noteq> 0 \<Longrightarrow>
   Tick_restart w = w\<lparr>NRx4 := NRx4 w AND NOT NRx4RestartSound, enabled := True, WaveTable.ticks := 0\<rparr>"
  by (simp add: Tick_restart_def)

lemma Tick_restart_clear:
  "NRx4 w AND NRx4RestartSound = 0 \<Longrightarrow> Tick_restart w = w"
  by (simp add: Tick_restart_def)

lemma Tick_restart_idem: "Tick_restart (Tick_restart w) = Tick_restart w"
  by (simp add: Tick_restart_def restart_bit_cleared)

lemma WaveTable_Tick_restart:
  "WaveTable_Tick n g (Tick_restart w) = WaveTable_Tick n g w"
  by (simp only: WaveTable_Tick_def Tick_restart_idem)

text \<open>
  C4. When \<open>Tick\<close> is called with the restart bit of \<open>NRx4\<close> set, the call proceeds exactly
  as from the channel with the restart bit cleared, the channel enabled and the sub-tick
  accumulator at 0, whatever the accumulator and the enable flag were before; the channel it
  returns has the restart bit clear and is enabled. The restart leaves the sample index as it
  was.
\<close>

theorem restart_resets_accumulator:
  assumes "NRx4 w AND NRx4RestartSound \<noteq> 0"
  shows "WaveTable_Tick n g w =
           WaveTable_Tick n g
             (w\<lparr>NRx4 := NRx4 w AND NOT NRx4RestartSound, enabled := True, WaveTable.ticks := 0\<rparr>) \<and>
         WaveTable_Tick n g (w\<lparr>WaveTable.ticks := t, enabled := e\<rparr>) = WaveTable_Tick n g w \<and>
         (\<forall>w' s. WaveTable_Tick n g w = Inr (w', s) \<longrightarrow>
                  NRx4 w' = NRx4 w AND NOT NRx4RestartSound \<and>
                  NRx4 w' AND NRx4RestartSound = 0 \<and> enabled w') \<and>
         (NRx0 w AND NR30SoundOn = 0 \<longrightarrow>
            WaveTable_Tick n g w =
              Inr (w\<lparr>NRx4 := NRx4 w AND NOT NRx4RestartSound, enabled := True,
                      WaveTable.ticks := 0\<rparr>, 0))"
proof -
  let ?r = "w\<lparr>NRx4 := NRx4 w AND NOT NRx4RestartSound, enabled := True, WaveTable.ticks := 0\<rparr>"
  have r: "Tick_restart w = ?r" using assms by (rule Tick_restart_set)
  have a: "WaveTable_Tick n g w = WaveTable_Tick n g ?r"
    using WaveTable_Tick_restart[of n g w] by (simp only: r)
  have "Tick_restart (w\<lparr>WaveTable.ticks := t, enabled := e\<rparr>) = ?r"
    using assms by (simp add: Tick_restart_def)
  then have b: "WaveTable_Tick n g (w\<lparr>WaveTable.ticks := t, enabled := e\<rparr>) = WaveTable_Tick n g w"
    using WaveTable_Tick_restart[of n g "w\<lparr>WaveTable.ticks := t, enabled := e\<rparr>"] a by simp
  have c: "NRx4 w' = NRx4 w AND NOT NRx4RestartSound \<and> NRx4 w' AND NRx4RestartSound = 0 \<and> enabled w'"
    if "WaveTable_Tick n g w = Inr (w', s)" for w' s
  proof -
    have "NRx4 w' = NRx4 ?r \<and> enabled w' = enabled ?r"
      using that Tick_loop_keeps_registers[of n g _ ?r w']
      by (auto simp: WaveTable_Tick_def r Let_def split: if_splits sum.splits)
    then show ?thesis by (simp add: restart_bit_cleared)
  qed
  have d: "WaveTable_Tick n g w = Inr (?r, 0)" if "NRx0 w AND NR30SoundOn = 0"
    using that by (simp add: WaveTable_Tick_def r)
  show ?thesis using a b c d by blast
qed

theorem restart_resets_accumulator_witness:
  "NRx4 example_WaveTable AND NRx4RestartSound \<noteq> 0 \<and>
   WaveTable_Tick 190 4194304 (example_WaveTable\<lparr>WaveTable.ticks := 3, enabled := True\<rparr>) =
     WaveTable_Tick 190 4194304 example_WaveTable \<and>
   WaveTable_Tick 190 4194304 example_WaveTable =
     Inr (example_WaveTable\<lparr>NRx4 := 7, enabled := True, WaveTable.ticks := 0\<rparr>, 0)"
proof -
  have h: "NRx4 example_WaveTable AND NRx4RestartSound \<noteq> 0"
    by (simp add: example_WaveTable_def NRx4RestartSound_def)
  have z: "NRx0 example_WaveTable AND NR30SoundOn = 0"
    by (simp add: example_WaveTable_def)
  have c: "NRx4 example_WaveTable AND NOT NRx4RestartSound = 7"
    by (simp add: example_WaveTable_def NRx4RestartSound_def)
  note t = restart_resets_accumulator[OF h, where n=190 and g=4194304 and t=3 and e=True]
  have 1: "WaveTable_Tick 190 4194304 (example_WaveTable\<lparr>WaveTable.ticks := 3, enabled := True\<rparr>) =
           WaveTable_Tick 190 4194304 example_WaveTable"
    using t by blast
  have 2: "WaveTable_Tick 190 4194304 example_WaveTable =
           Inr (example_WaveTable\<lparr>NRx4 := NRx4 example_WaveTable AND NOT NRx4RestartSound,
                  enabled := True, WaveTable.ticks := 0\<rparr>, 0)"
    using t z by blast
  show ?thesis
    using h 1 2[unfolded c] by blast
qed

lemma example_restart_sounding:
  "WaveTable_Tick 2 4194304 (example_WaveTable\<lparr>NRx0 := 0x80\<rparr>) =
   Inr (example_WaveTable\<lparr>NRx0 := 0x80, NRx4 := 7, enabled := True, sample := 6,
          sampleOffset := 6, WaveTable.ticks := 0\<rparr>, 6)"
  by code_simp

text \<open>
  A restart at sample index 5: with the channel off the index is still 5 after the call; with
  the channel on, the next sample played is the one at index 6.
\<close>

theorem restart_keeps_sample_index:
  "NRx4 example_WaveTable AND NRx4RestartSound \<noteq> 0 \<and>
   sampleOffset example_WaveTable = 5 \<and>
   WaveTable_Tick 190 4194304 example_WaveTable =
     Inr (example_WaveTable\<lparr>NRx4 := 7, enabled := True, WaveTable.ticks := 0\<rparr>, 0) \<and>
   sampleOffset (example_WaveTable\<lparr>NRx4 := 7, enabled := True, WaveTable.ticks := 0\<rparr>) \<noteq> 0 \<and>
   WaveTable_Tick 2 4194304 (example_WaveTable\<lparr>NRx0 := 0x80\<rparr>) =
     Inr (example_WaveTable\<lparr>NRx0 := 0x80, NRx4 := 7, enabled := True, sample := 6,
            sampleOffset := 6, WaveTable.ticks := 0\<rparr>, 6)"
  using example_restart_sounding
  by (simp add: WaveTable_Tick_def Tick_restart_def example_WaveTable_def NRx4RestartSound_def
        NR30SoundOn_def)

text \<open>
  C6. With the restart bit clear, a channel that is disabled, or whose on/off bit in \<open>NRx0\<close>
  is clear, returns silence from \<open>Tick\<close> and is left as it was: sample index and sub-tick
  accumulator are unchanged. With the restart bit set and the on/off bit clear, \<open>Tick\<close> still
  returns silence and leaves the sample index unchanged, but the restart has taken place: the
  restart bit is cleared, the channel is enabled and the sub-tick accumulator is 0.
\<close>

theorem silent_tick:
  "(NRx4 w AND NRx4RestartSound = 0 \<and> (\<not> enabled w \<or> NRx0 w AND NR30SoundOn = 0) \<longrightarrow>
      WaveTable_Tick n g w = Inr (w, 0)) \<and>
   (NRx4 w AND NRx4RestartSound \<noteq> 0 \<and> NRx0 w AND NR30SoundOn = 0 \<longrightarrow>
      WaveTable_Tick n g w =
        Inr (w\<lparr>NRx4 := NRx4 w AND NOT NRx4RestartSound, enabled := True,
                WaveTable.ticks := 0\<rparr>, 0))"
  by (simp add: WaveTable_Tick_def Tick_restart_def)

theorem silent_tick_witness:
  "WaveTable_Tick 190 4194304 (example_WaveTable\<lparr>NRx4 := 7\<rparr>) =
     Inr (example_WaveTable\<lparr>NRx4 := 7\<rparr>, 0) \<and>
   WaveTable_Tick 190 4194304 example_WaveTable =
     Inr (example_WaveTable\<lparr>NRx4 := 7, enabled := True, WaveTable.ticks := 0\<rparr>, 0)"
proof -
  have a: "NRx4 (example_WaveTable\<lparr>NRx4 := 7\<rparr>) AND NRx4RestartSound = 0 \<and>
           (\<not> enabled (example_WaveTable\<lparr>NRx4 := 7\<rparr>) \<or>
            NRx0 (example_WaveTable\<lparr>NRx4 := 7\<rparr>) AND NR30SoundOn = 0)"
    by (simp add: example_WaveTable_def NRx4RestartSound_def)
  have b: "NRx4 example_WaveTable AND NRx4RestartSound \<noteq> 0 \<and>
           NRx0 example_WaveTable AND NR30SoundOn = 0"
    by (simp add: example_WaveTable_def NRx4RestartSound_def)
  have c: "NRx4 example_WaveTable AND NOT NRx4RestartSound = 7"
    by (simp add: example_WaveTable_def NRx4RestartSound_def)
  have 1: "WaveTable_Tick 190 4194304 (example_WaveTable\<lparr>NRx4 := 7\<rparr>) =
           Inr (example_WaveTable\<lparr>NRx4 := 7\<rparr>, 0)"
    using a silent_tick[of "example_WaveTable\<lparr>NRx4 := 7\<rparr>" 190 4194304] by blast
  have 2: "WaveTable_Tick 190 4194304 example_WaveTable =
           Inr (example_WaveTable\<lparr>NRx4 := NRx4 example_WaveTable AND NOT NRx4RestartSound,
                  enabled := True, WaveTable.ticks := 0\<rparr>, 0)"
    using b silent_tick[of example_WaveTable 190 4194304] by blast
  show ?thesis using 1 2[unfolded c] by blast
qed

text \<open>
  A silent call with the restart bit set: the accumulator goes from 7 to 0.
\<close>

theorem silent_tick_resets_accumulator:
  "NRx0 example_WaveTable AND NR30SoundOn = 0 \<and>
   WaveTable.ticks example_WaveTable = 7 \<and>
   WaveTable_Tick 190 4194304 example_WaveTable =
     Inr (example_WaveTable\<lparr>NRx4 := 7, enabled := True, WaveTable.ticks := 0\<rparr>, 0) \<and>
   WaveTable.ticks (example_WaveTable\<lparr>NRx4 := 7, enabled := True, WaveTable.ticks := 0\<rparr>) \<noteq>
     WaveTable.ticks example_WaveTable"
  by (simp add: WaveTable_Tick_def Tick_restart_def example_WaveTable_def NRx4RestartSound_def
        NR30SoundOn_def)

section \<open>Tile rows\<close>

lemma list8: "length (d::'a list) = 8 \<Longrightarrow> \<exists>a b c e f g h i. d = [a, b, c, e, f, g, h, i]"
  by (auto simp add: length_Suc_conv eval_nat_numeral)

lemma drop_bit_and_1: "drop_bit n (w::u8) AND 1 = of_bool (bit w n)"
  by (simp add: and_one_eq bit_iff_odd_drop_bit mod_2_eq_odd)

lemma fold_update_mirrored:
  "length d = 8 \<Longrightarrow>
   fold (\<lambda>b d. d[7 - b := g b (d ! (7 - b))]) [7, 6, 5, 4, 3, 2, 1, 0] d =
   map (\<lambda>b. g b (d ! (7 - b))) [7, 6, 5, 4, 3, 2, 1, 0::nat]"
  by (drule list8) clarsimp

lemma fold_update_direct:
  "length d = 8 \<Longrightarrow>
   fold (\<lambda>b d. d[b := g b (d ! b)]) [7, 6, 5, 4, 3, 2, 1, 0] d =
   map (\<lambda>b. g b (d ! b)) [0, 1, 2, 3, 4, 5, 6, 7::nat]"
  by (drule list8) clarsimp

lemma ReadTileLine_bit_alt:
  "ReadTileLine_bit fx bp fl px =
     (if fl AND fx \<noteq> 0 then (\<lambda>b d. d[b := plane_bit bp px b (d ! b)])
      else (\<lambda>b d. d[7 - b := plane_bit bp px b (d ! (7 - b))]))"
  by (intro ext) (simp add: ReadTileLine_bit_def plane_bit_def drop_bit_and_1 Let_def)

lemma fold_ReadTileLine_bit_flip:
  assumes "length d = 8" "fl AND fx \<noteq> 0"
  shows "fold (ReadTileLine_bit fx bp fl px) [7, 6, 5, 4, 3, 2, 1, 0] d =
         map (\<lambda>b. plane_bit bp px b (d ! b)) [0, 1, 2, 3, 4, 5, 6, 7]"
proof -
  have e: "ReadTileLine_bit fx bp fl px = (\<lambda>b d. d[b := plane_bit bp px b (d ! b)])"
    using assms(2) by (simp add: ReadTileLine_bit_alt)
  show ?thesis unfolding e by (rule fold_update_direct[OF assms(1)])
qed

lemma fold_ReadTileLine_bit_noflip:
  assumes "length d = 8" "fl AND fx = 0"
  shows "fold (ReadTileLine_bit fx bp fl px) [7, 6, 5, 4, 3, 2, 1, 0] d =
         map (\<lambda>b. plane_bit bp px b (d ! (7 - b))) [7, 6, 5, 4, 3, 2, 1, 0]"
proof -
  have e: "ReadTileLine_bit fx bp fl px = (\<lambda>b d. d[7 - b := plane_bit bp px b (d ! (7 - b))])"
    using assms(2) by (simp add: ReadTileLine_bit_alt)
  show ?thesis unfolding e by (rule fold_update_mirrored[OF assms(1)])
qed

lemma ReadTileLine_flip:
  "length d = 8 \<Longrightarrow> fl AND fx \<noteq> 0 \<Longrightarrow>
   ReadTileLine fx fy f bp a i s l fl d =
     map (\<lambda>b. plane_bit bp (ReadTileLine_pixelData fy f bp a i s l fl) b (d ! b))
       [0, 1, 2, 3, 4, 5, 6, 7]"
  unfolding ReadTileLine_def Let_def by (rule fold_ReadTileLine_bit_flip)

lemma ReadTileLine_noflip:
  "length d = 8 \<Longrightarrow> fl AND fx = 0 \<Longrightarrow>
   ReadTileLine fx fy f bp a i s l fl d =
     map (\<lambda>b. plane_bit bp (ReadTileLine_pixelData fy f bp a i s l fl) b (d ! (7 - b)))
       [7, 6, 5, 4, 3, 2, 1, 0]"
  unfolding ReadTileLine_def Let_def by (rule fold_ReadTileLine_bit_noflip)

lemma length_ReadTileLine:
  "length d = 8 \<Longrightarrow> length (ReadTileLine fx fy f bp a i s l fl d) = 8"
  by (cases "fl AND fx = 0") (simp_all add: ReadTileLine_flip ReadTileLine_noflip)

lemma bool_or_shift:
  "(of_bool a :: u8) OR push_bit 1 (of_bool b) = 2 * of_bool b + of_bool a"
  by (cases a; cases b) simp_all

lemma plane_bit_both:
  "plane_bit 1 hi b (plane_bit 0 lo b' old) = 2 * of_bool (bit hi b) + of_bool (bit lo b')"
  by (simp only: plane_bit_def bool_or_shift) simp

lemma ReadTileLine_planes_noflip:
  assumes "length d = 8" "fl AND fx = 0"
  shows "ReadTileLine fx fy f 1 a i s l fl (ReadTileLine fx fy f 0 a i s l fl d) =
         spec_tile_row (ReadTileLine_pixelData fy f 0 a i s l fl)
                       (ReadTileLine_pixelData fy f 1 a i s l fl)"
proof -
  have l: "length (ReadTileLine fx fy f 0 a i s l fl d) = 8"
    using assms(1) by (rule length_ReadTileLine)
  show ?thesis
    unfolding ReadTileLine_noflip[OF l assms(2)]
    unfolding ReadTileLine_noflip[OF assms]
    unfolding spec_tile_row_def
    by (simp add: plane_bit_both)
qed

lemma ReadTileLine_planes_flip:
  assumes "length d = 8" "fl AND fx \<noteq> 0"
  shows "ReadTileLine fx fy f 1 a i s l fl (ReadTileLine fx fy f 0 a i s l fl d) =
         rev (spec_tile_row (ReadTileLine_pixelData fy f 0 a i s l fl)
                            (ReadTileLine_pixelData fy f 1 a i s l fl))"
proof -
  have l: "length (ReadTileLine fx fy f 0 a i s l fl d) = 8"
    using assms(1) by (rule length_ReadTileLine)
  show ?thesis
    unfolding ReadTileLine_flip[OF l assms(2)]
    unfolding ReadTileLine_flip[OF assms]
    unfolding spec_tile_row_def
    by (simp add: plane_bit_both)
qed

lemma Decode_row: "Decode p addr = spec_tile_row (PPU_Read p addr) (PPU_Read p (addr + 1))"
proof -
  have "row_pixel lo hi b = 2 * of_bool (bit hi b) + of_bool (bit lo b)" for lo hi b
    unfolding row_pixel_def drop_bit_and_1 by (cases "bit hi b"; cases "bit lo b") simp_all
  then show ?thesis
    by (simp add: Decode_def Let_def spec_tile_row_def)
qed

lemma spec_tile_row_example: "spec_tile_row 0xB0 0xC0 = [3, 2, 1, 1, 0, 0, 0, 0]"
  unfolding spec_tile_row_def by simp

lemma example_plane_bytes:
  "ReadTileLine_pixelData 0x40 example_Fetcher 0 0x8000 0 False 0 0 = 0xB0"
  "ReadTileLine_pixelData 0x40 example_Fetcher 1 0x8000 0 False 0 0 = 0xC0"
  "ReadTileLine_pixelData 0x40 example_Fetcher 0 0x8000 0 False 0 0x20 = 0xB0"
  "ReadTileLine_pixelData 0x40 example_Fetcher 1 0x8000 0 False 0 0x20 = 0xC0"
  by (simp_all add: ReadTileLine_pixelData_def example_Fetcher_def example_memory_def)

text \<open>
  C2. Without the horizontal-flip flag, the two passes of \<open>ReadTileLine\<close> over the planes,
  and \<open>Decode\<close>, produce the row in which column \<open>i\<close> has bit \<open>7 - i\<close> of the high plane
  as its high bit and bit \<open>7 - i\<close> of the low plane as its low bit; for the plane bytes
  \<open>0b10110000\<close> (low) and \<open>0b11000000\<close> (high) that row is \<open>[3,2,1,1,0,0,0,0]\<close>.
\<close>

theorem tile_row_decode:
  assumes "length data = 8" and "flags AND SpriteFlipX = 0"
  shows "ReadTileLine SpriteFlipX SpriteFlipY f 1 a i s l flags
           (ReadTileLine SpriteFlipX SpriteFlipY f 0 a i s l flags data) =
         spec_tile_row (ReadTileLine_pixelData SpriteFlipY f 0 a i s l flags)
                       (ReadTileLine_pixelData SpriteFlipY f 1 a i s l flags) \<and>
         (ReadTileLine_pixelData SpriteFlipY f 0 a i s l flags = 0xB0 \<and>
          ReadTileLine_pixelData SpriteFlipY f 1 a i s l flags = 0xC0 \<longrightarrow>
            ReadTileLine SpriteFlipX SpriteFlipY f 1 a i s l flags
              (ReadTileLine SpriteFlipX SpriteFlipY f 0 a i s l flags data) =
            [3, 2, 1, 1, 0, 0, 0, 0]) \<and>
         Decode p addr = spec_tile_row (PPU_Read p addr) (PPU_Read p (addr + 1)) \<and>
         (PPU_Read p addr = 0xB0 \<and> PPU_Read p (addr + 1) = 0xC0 \<longrightarrow>
            Decode p addr = [3, 2, 1, 1, 0, 0, 0, 0])"
  using ReadTileLine_planes_noflip[OF assms, of SpriteFlipY f a i s l]
  by (simp add: Decode_row spec_tile_row_example)

theorem tile_row_decode_witness:
  "length [0, 0, 0, 0, 0, 0, 0, 0 :: u8] = 8 \<and> (0 :: u8) AND 0x20 = 0 \<and>
   ReadTileLine 0x20 0x40 example_Fetcher 1 0x8000 0 False 0 0
     (ReadTileLine 0x20 0x40 example_Fetcher 0 0x8000 0 False 0 0 [0, 0, 0, 0, 0, 0, 0, 0]) =
   [3, 2, 1, 1, 0, 0, 0, 0] \<and>
   Decode example_PPU 0x8000 = [3, 2, 1, 1, 0, 0, 0, 0]"
proof -
  have l: "length [0, 0, 0, 0, 0, 0, 0, 0 :: u8] = 8" by simp
  have x: "(0 :: u8) AND 0x20 = 0" by simp
  have m: "PPU_Read example_PPU 0x8000 = 0xB0 \<and> PPU_Read example_PPU (0x8000 + 1) = 0xC0"
    by (simp add: PPU_Read_def example_PPU_def example_memory_def)
  note t = tile_row_decode[OF l x, of "0x40" example_Fetcher "0x8000" 0 False 0 example_PPU "0x8000"]
  show ?thesis using t l x m example_plane_bytes by blast
qed

text \<open>
  For these two plane bytes neither \<open>ReadTileLine\<close> nor \<open>Decode\<close> produces the row
  \<open>[3,2,2,1,0,0,0,0]\<close>.
\<close>

theorem tile_row_example_is_not_3221:
  "ReadTileLine_pixelData 0x40 example_Fetcher 0 0x8000 0 False 0 0 = 0xB0 \<and>
   ReadTileLine_pixelData 0x40 example_Fetcher 1 0x8000 0 False 0 0 = 0xC0 \<and>
   ReadTileLine 0x20 0x40 example_Fetcher 1 0x8000 0 False 0 0
     (ReadTileLine 0x20 0x40 example_Fetcher 0 0x8000 0 False 0 0 [0, 0, 0, 0, 0, 0, 0, 0]) \<noteq>
   [3, 2, 2, 1, 0, 0, 0, 0] \<and>
   PPU_Read example_PPU 0x8000 = 0xB0 \<and> PPU_Read example_PPU 0x8001 = 0xC0 \<and>
   Decode example_PPU 0x8000 \<noteq> [3, 2, 2, 1, 0, 0, 0, 0]"
proof -
  have r: "ReadTileLine 0x20 0x40 example_Fetcher 1 0x8000 0 False 0 0
     (ReadTileLine 0x20 0x40 example_Fetcher 0 0x8000 0 False 0 0 [0, 0, 0, 0, 0, 0, 0, 0]) =
     [3, 2, 1, 1, 0, 0, 0, 0]"
    by (simp add: ReadTileLine_planes_noflip example_plane_bytes spec_tile_row_example)
  have m: "PPU_Read example_PPU 0x8000 = 0xB0" "PPU_Read example_PPU 0x8001 = 0xC0"
    by (simp_all add: PPU_Read_def example_PPU_def example_memory_def)
  have d: "Decode example_PPU 0x8000 = [3, 2, 1, 1, 0, 0, 0, 0]"
    by (simp add: Decode_row m spec_tile_row_example)
  show ?thesis
    by (simp add: r d m example_plane_bytes)
qed

text \<open>
  C3. A row decoded with the horizontal-flip flag is the reverse of the row decoded without
  it from the same two plane bytes; for the plane bytes \<open>0b10110000\<close> (low) and
  \<open>0b11000000\<close> (high) the flipped row is \<open>[0,0,0,0,1,1,2,3]\<close>.
\<close>

theorem horizontal_flip_reverses_row:
  assumes "length d = 8" and "length d' = 8"
    and "flags AND SpriteFlipX \<noteq> 0" and "flags' AND SpriteFlipX = 0"
    and "ReadTileLine_pixelData SpriteFlipY f 0 a i s l flags =
         ReadTileLine_pixelData SpriteFlipY f' 0 a' i' s' l' flags'"
    and "ReadTileLine_pixelData SpriteFlipY f 1 a i s l flags =
         ReadTileLine_pixelData SpriteFlipY f' 1 a' i' s' l' flags'"
  shows "ReadTileLine SpriteFlipX SpriteFlipY f 1 a i s l flags
           (ReadTileLine SpriteFlipX SpriteFlipY f 0 a i s l flags d) =
         rev (ReadTileLine SpriteFlipX SpriteFlipY f' 1 a' i' s' l' flags'
                (ReadTileLine SpriteFlipX SpriteFlipY f' 0 a' i' s' l' flags' d')) \<and>
         (ReadTileLine_pixelData SpriteFlipY f 0 a i s l flags = 0xB0 \<and>
          ReadTileLine_pixelData SpriteFlipY f 1 a i s l flags = 0xC0 \<longrightarrow>
            ReadTileLine SpriteFlipX SpriteFlipY f 1 a i s l flags
              (ReadTileLine SpriteFlipX SpriteFlipY f 0 a i s l flags d) =
            [0, 0, 0, 0, 1, 1, 2, 3])"
proof -
  have p: "ReadTileLine SpriteFlipX SpriteFlipY f 1 a i s l flags
             (ReadTileLine SpriteFlipX SpriteFlipY f 0 a i s l flags d) =
           rev (spec_tile_row (ReadTileLine_pixelData SpriteFlipY f 0 a i s l flags)
                              (ReadTileLine_pixelData SpriteFlipY f 1 a i s l flags))"
    using assms(1,3) by (rule ReadTileLine_planes_flip)
  have q: "ReadTileLine SpriteFlipX SpriteFlipY f' 1 a' i' s' l' flags'
             (ReadTileLine SpriteFlipX SpriteFlipY f' 0 a' i' s' l' flags' d') =
           spec_tile_row (ReadTileLine_pixelData SpriteFlipY f' 0 a' i' s' l' flags')
                         (ReadTileLine_pixelData SpriteFlipY f' 1 a' i' s' l' flags')"
    using assms(2,4) by (rule ReadTileLine_planes_noflip)
  have e: "rev (spec_tile_row 0xB0 0xC0) = [0, 0, 0, 0, 1, 1, 2, 3]"
    by (simp add: spec_tile_row_example)
  show ?thesis
    unfolding p q assms(5,6)[symmetric] using e by simp
qed

theorem horizontal_flip_reverses_row_witness:
  "ReadTileLine 0x20 0x40 example_Fetcher 1 0x8000 0 False 0 0x20
     (ReadTileLine 0x20 0x40 example_Fetcher 0 0x8000 0 False 0 0x20 [0, 0, 0, 0, 0, 0, 0, 0]) =
   rev (ReadTileLine 0x20 0x40 example_Fetcher 1 0x8000 0 False 0 0
          (ReadTileLine 0x20 0x40 example_Fetcher 0 0x8000 0 False 0 0 [0, 0, 0, 0, 0, 0, 0, 0])) \<and>
   ReadTileLine 0x20 0x40 example_Fetcher 1 0x8000 0 False 0 0x20
     (ReadTileLine 0x20 0x40 example_Fetcher 0 0x8000 0 False 0 0x20 [0, 0, 0, 0, 0, 0, 0, 0]) =
   [0, 0, 0, 0, 1, 1, 2, 3]"
proof -
  have l: "length [0, 0, 0, 0, 0, 0, 0, 0 :: u8] = 8" by simp
  have x: "(0x20 :: u8) AND 0x20 \<noteq> 0" by simp
  have y: "(0 :: u8) AND 0x20 = 0" by simp
  have b0: "ReadTileLine_pixelData 0x40 example_Fetcher 0 0x8000 0 False 0 0x20 =
            ReadTileLine_pixelData 0x40 example_Fetcher 0 0x8000 0 False 0 0"
    by (simp only: example_plane_bytes)
  have b1: "ReadTileLine_pixelData 0x40 example_Fetcher 1 0x8000 0 False 0 0x20 =
            ReadTileLine_pixelData 0x40 example_Fetcher 1 0x8000 0 False 0 0"
    by (simp only: example_plane_bytes)
  note t = horizontal_flip_reverses_row[OF l l x y b0 b1]
  show ?thesis using t example_plane_bytes by blast
qed

text \<open>
  For these two plane bytes the flipped row is not \<open>[0,0,0,0,1,2,2,3]\<close>.
\<close>

theorem flipped_row_example_is_not_1223:
  "(0x20 :: u8) AND 0x20 \<noteq> 0 \<and>
   ReadTileLine_pixelData 0x40 example_Fetcher 0 0x8000 0 False 0 0x20 = 0xB0 \<and>
   ReadTileLine_pixelData 0x40 example_Fetcher 1 0x8000 0 False 0 0x20 = 0xC0 \<and>
   ReadTileLine 0x20 0x40 example_Fetcher 1 0x8000 0 False 0 0x20
     (ReadTileLine 0x20 0x40 example_Fetcher 0 0x8000 0 False 0 0x20 [0, 0, 0, 0, 0, 0, 0, 0]) \<noteq>
   [0, 0, 0, 0, 1, 2, 2, 3]"
proof -
  have r: "ReadTileLine 0x20 0x40 example_Fetcher 1 0x8000 0 False 0 0x20
     (ReadTileLine 0x20 0x40 example_Fetcher 0 0x8000 0 False 0 0x20 [0, 0, 0, 0, 0, 0, 0, 0]) =
     [0, 0, 0, 0, 1, 1, 2, 3]"
    by (simp add: ReadTileLine_planes_flip example_plane_bytes spec_tile_row_example)
  show ?thesis
    by (simp add: r example_plane_bytes)
qed

section \<open>Pixel values\<close>

lemma u8_le3: "(x::u8) \<le> 3 \<longleftrightarrow> x = 0 \<or> x = 1 \<or> x = 2 \<or> x = 3"
proof
  assume "x \<le> 3"
  then have "unat x \<le> 3" by (simp add: word_le_nat_alt)
  then have "unat x = 0 \<or> unat x = 1 \<or> unat x = 2 \<or> unat x = 3" by arith
  then show "x = 0 \<or> x = 1 \<or> x = 2 \<or> x = 3"
    by (auto simp: word_unat_eq_iff)
next
  assume "x = 0 \<or> x = 1 \<or> x = 2 \<or> x = 3"
  then show "x \<le> 3" by auto
qed

lemma plane_bit_0_le1: "plane_bit 0 px b old \<le> 1"
  by (simp add: plane_bit_def)

lemma plane_bit_le3: "old \<le> 3 \<Longrightarrow> plane_bit bp px b old \<le> 3"
  by (auto simp: plane_bit_def u8_le3)

lemma set_list8: "length d = 8 \<Longrightarrow> set d = {d ! 0, d ! 1, d ! 2, d ! 3, d ! 4, d ! 5, d ! 6, d ! 7}"
  by (drule list8) auto

lemma nth_le3: "length d = 8 \<Longrightarrow> \<forall>x\<in>set d. x \<le> (3::u8) \<Longrightarrow> b < 8 \<Longrightarrow> d ! b \<le> 3"
  by simp

lemma ReadTileLine_plane0_le1:
  assumes "length d = 8"
  shows "\<forall>x\<in>set (ReadTileLine fx fy f 0 a i s l fl d). x \<le> 1"
  by (cases "fl AND fx = 0")
     (simp_all add: ReadTileLine_flip[OF assms] ReadTileLine_noflip[OF assms] plane_bit_0_le1)

lemma ReadTileLine_le3:
  assumes "length d = 8" and "\<forall>x\<in>set d. x \<le> 3"
  shows "\<forall>x\<in>set (ReadTileLine fx fy f bp a i s l fl d). x \<le> 3"
proof -
  have n: "d ! b \<le> 3" if "b < 8" for b using assms that by simp
  show ?thesis
    by (cases "fl AND fx = 0")
       (simp_all add: ReadTileLine_flip[OF assms(1)] ReadTileLine_noflip[OF assms(1)]
          plane_bit_le3 n)
qed

section \<open>The fetcher's state machine\<close>

lemma FIFO_PushAll_fits:
  "length q + length xs \<le> 16 \<Longrightarrow> FIFO_PushAll q xs = Inr (q @ xs)"
  by (induction xs arbitrary: q) (simp_all add: FIFO_Push_def FIFO_Capacity_def)

lemma map_nth_list8: "length d = 8 \<Longrightarrow> map (\<lambda>i. d ! i) [0, 1, 2, 3, 4, 5, 6, 7] = d"
  by (drule list8) auto

lemma list8_plus:
  "8 \<le> length (q::'a list) \<Longrightarrow> \<exists>a b c e f g h i r. q = [a, b, c, e, f, g, h, i] @ r"
proof -
  assume "8 \<le> length q"
  then have "length (take 8 q) = 8" by simp
  then obtain a b c e f g h i where "take 8 q = [a, b, c, e, f, g, h, i]"
    using list8 by blast
  then have "q = [a, b, c, e, f, g, h, i] @ drop 8 q"
    by (metis append_take_drop_id)
  then show ?thesis by blast
qed

lemma FIFO_MixAll_first8:
  "8 \<le> length q \<Longrightarrow>
   FIFO_MixAll mx q [0, 1, 2, 3, 4, 5, 6, 7] sd =
     Inr (map (\<lambda>i. mx (q ! i) (sd ! i)) [0, 1, 2, 3, 4, 5, 6, 7] @ drop 8 q)"
  by (drule list8_plus) (clarsimp simp: FIFO_Mix_def)

lemma step_ReadTileID:
  "Fetcher.state f = ReadTileID \<Longrightarrow>
   Fetcher_step fx fy mx f =
     Inr (f\<lparr>tileID := vRAM f (mapAddr f + ucast (tileOffset f)), Fetcher.state := ReadTileData0\<rparr>)"
  by (simp add: Fetcher_step_def)

lemma step_ReadTileData0:
  "Fetcher.state f = ReadTileData0 \<Longrightarrow>
   Fetcher_step fx fy mx f =
     Inr (f\<lparr>tileData := ReadTileLine fx fy f 0 (dataAddr f) (tileID f) (signedID f) (tileLine f) 0
                            (tileData f),
            Fetcher.state := ReadTileData1\<rparr>)"
  by (simp add: Fetcher_step_def)

lemma step_ReadTileData1:
  "Fetcher.state f = ReadTileData1 \<Longrightarrow>
   Fetcher_step fx fy mx f =
     Inr (f\<lparr>tileData := ReadTileLine fx fy f 1 (dataAddr f) (tileID f) (signedID f) (tileLine f) 0
                            (tileData f),
            Fetcher.state := PushToFIFO\<rparr>)"
  by (simp add: Fetcher_step_def)

lemma step_PushToFIFO_push:
  "Fetcher.state f = PushToFIFO \<Longrightarrow> length (tileData f) = 8 \<Longrightarrow> FIFO_Size (fifo f) \<le> 8 \<Longrightarrow>
   Fetcher_step fx fy mx f =
     Inr (f\<lparr>fifo := fifo f @ tileData f, tileOffset := (tileOffset f + 1) mod 32,
            Fetcher.state := ReadTileID\<rparr>)"
proof -
  assume s: "Fetcher.state f = PushToFIFO" and l: "length (tileData f) = 8"
    and q: "FIFO_Size (fifo f) \<le> 8"
  have "FIFO_PushAll (fifo f) (tileData f) = Inr (fifo f @ tileData f)"
    using l q by (intro FIFO_PushAll_fits) (simp add: FIFO_Size_def)
  then have p: "FIFO_PushAll (fifo f) (map (\<lambda>i. tileData f ! i) [0, 1, 2, 3, 4, 5, 6, 7]) =
                Inr (fifo f @ tileData f)"
    by (simp only: map_nth_list8[OF l])
  show ?thesis
    unfolding Fetcher_step_def p using s q by simp
qed

lemma step_PushToFIFO_stall:
  "Fetcher.state f = PushToFIFO \<Longrightarrow> 8 < FIFO_Size (fifo f) \<Longrightarrow> Fetcher_step fx fy mx f = Inr f"
  by (simp add: Fetcher_step_def)

lemma step_ReadSpriteID:
  "Fetcher.state f = ReadSpriteID \<Longrightarrow>
   Fetcher_step fx fy mx f =
     Inr (f\<lparr>spriteID := vRAM f (Address (sprite f) + 2), Fetcher.state := ReadSpriteFlags\<rparr>)"
  by (simp add: Fetcher_step_def)

lemma step_ReadSpriteFlags:
  "Fetcher.state f = ReadSpriteFlags \<Longrightarrow>
   Fetcher_step fx fy mx f =
     Inr (f\<lparr>spriteFlags := vRAM f (Address (sprite f) + 3), Fetcher.state := ReadSpriteData0\<rparr>)"
  by (simp add: Fetcher_step_def)

lemma step_ReadSpriteData0:
  "Fetcher.state f = ReadSpriteData0 \<Longrightarrow>
   Fetcher_step fx fy mx f =
     Inr (f\<lparr>spriteData := ReadTileLine fx fy f 0 0x8000 (spriteID f) False (spriteLine f)
                              (spriteFlags f) (spriteData f),
            Fetcher.state := ReadSpriteData1\<rparr>)"
  by (simp add: Fetcher_step_def)

lemma step_ReadSpriteData1:
  "Fetcher.state f = ReadSpriteData1 \<Longrightarrow>
   Fetcher_step fx fy mx f =
     Inr (f\<lparr>spriteData := ReadTileLine fx fy f 1 0x8000 (spriteID f) False (spriteLine f)
                              (spriteFlags f) (spriteData f),
            Fetcher.state := MixInFIFO\<rparr>)"
  by (simp add: Fetcher_step_def)

lemma step_MixInFIFO_mix:
  "Fetcher.state f = MixInFIFO \<Longrightarrow> 8 \<le> FIFO_Size (fifo f) \<Longrightarrow>
   Fetcher_step fx fy mx f =
     Inr (f\<lparr>fifo := map (\<lambda>i. mx (fifo f ! i) (spriteData f ! i)) [0, 1, 2, 3, 4, 5, 6, 7] @
                      drop 8 (fifo f),
            Fetcher.state := oldState f\<rparr>)"
proof -
  assume s: "Fetcher.state f = MixInFIFO" and q: "8 \<le> FIFO_Size (fifo f)"
  have m: "FIFO_MixAll mx (fifo f) [0, 1, 2, 3, 4, 5, 6, 7] (spriteData f) =
           Inr (map (\<lambda>i. mx (fifo f ! i) (spriteData f ! i)) [0, 1, 2, 3, 4, 5, 6, 7] @
                drop 8 (fifo f))"
    using q by (intro FIFO_MixAll_first8) (simp add: FIFO_Size_def)
  show ?thesis
    unfolding Fetcher_step_def m using s q by simp
qed

lemma step_MixInFIFO_stall:
  "Fetcher.state f = MixInFIFO \<Longrightarrow> FIFO_Size (fifo f) < 8 \<Longrightarrow> Fetcher_step fx fy mx f = Inr f"
  by (simp add: Fetcher_step_def)

lemma step_other:
  "Fetcher.state f \<in> {OAMSearch, PixelTransfer, HBlank, VBlank} \<Longrightarrow>
   Fetcher_step fx fy mx f = Inr f"
  by (auto simp: Fetcher_step_def)

lemmas step_simps =
  step_ReadTileID step_ReadTileData0 step_ReadTileData1 step_PushToFIFO_push
  step_PushToFIFO_stall step_ReadSpriteID step_ReadSpriteFlags step_ReadSpriteData0
  step_ReadSpriteData1 step_MixInFIFO_mix step_MixInFIFO_stall

text \<open>A step never fails on a well-formed fetcher, and touches neither the accumulator nor
  the enable flag.\<close>

lemma Fetcher_step_cases:
  assumes "wf_Fetcher f"
  obtains f' where "Fetcher_step fx fy mx f = Inr f'"
    and "Fetcher.ticks f' = Fetcher.ticks f" and "Enabled f' = Enabled f" and "wf_Fetcher f'"
proof -
  have l: "length (tileData f) = 8" "length (spriteData f) = 8"
    using assms by (simp_all add: wf_Fetcher_def)
  have "\<exists>f'. Fetcher_step fx fy mx f = Inr f' \<and> Fetcher.ticks f' = Fetcher.ticks f \<and>
          Enabled f' = Enabled f \<and> wf_Fetcher f'"
  proof (cases "Fetcher.state f")
    case PushToFIFO
    then show ?thesis
      using l by (cases "FIFO_Size (fifo f) \<le> 8")
        (simp_all add: step_PushToFIFO_push step_PushToFIFO_stall wf_Fetcher_def)
  next
    case MixInFIFO
    then show ?thesis
      using l by (cases "FIFO_Size (fifo f) < 8")
        (simp_all add: step_MixInFIFO_mix step_MixInFIFO_stall wf_Fetcher_def)
  qed (use l in \<open>simp_all add: step_simps step_other wf_Fetcher_def length_ReadTileLine\<close>)
  then show ?thesis using that by blast
qed

section \<open>The clock divider of the fetcher\<close>

lemma Tick_disabled: "\<not> Enabled f \<Longrightarrow> Fetcher_Tick cf fx fy mx f = Inr f"
  by (simp add: Fetcher_Tick_def)

lemma Tick_waiting:
  "Enabled f \<Longrightarrow> Fetcher.ticks f + 1 < cf \<Longrightarrow>
   Fetcher_Tick cf fx fy mx f = Inr (f\<lparr>Fetcher.ticks := Fetcher.ticks f + 1\<rparr>)"
  by (simp add: Fetcher_Tick_def Let_def)

lemma Tick_qualifying:
  "Enabled f \<Longrightarrow> cf \<le> Fetcher.ticks f + 1 \<Longrightarrow>
   Fetcher_Tick cf fx fy mx f = Fetcher_step fx fy mx (f\<lparr>Fetcher.ticks := 0\<rparr>)"
  by (simp add: Fetcher_Tick_def Let_def)

lemma Ticks_one: "Fetcher_Ticks (Suc 0) cf fx fy mx f = Fetcher_Tick cf fx fy mx f"
  by (simp split: sum.splits)

lemma Ticks_to_step:
  "Enabled f \<Longrightarrow> Fetcher.ticks f = cf - int (Suc k) \<Longrightarrow>
   Fetcher_Ticks (Suc k) cf fx fy mx f = Fetcher_step fx fy mx (f\<lparr>Fetcher.ticks := 0\<rparr>)"
proof (induction k arbitrary: f)
  case 0
  then show ?case by (simp only: Ticks_one) (simp add: Tick_qualifying)
next
  case (Suc k)
  let ?f = "f\<lparr>Fetcher.ticks := Fetcher.ticks f + 1\<rparr>"
  have w: "Fetcher_Tick cf fx fy mx f = Inr ?f"
    using Suc.prems by (intro Tick_waiting) simp_all
  have "Fetcher_Ticks (Suc k) cf fx fy mx ?f = Fetcher_step fx fy mx (?f\<lparr>Fetcher.ticks := 0\<rparr>)"
    using Suc.prems by (intro Suc.IH) simp_all
  then show ?case
    by (simp add: w del: Fetcher_Ticks.simps(2) add: Fetcher_Ticks.simps(2)[of "Suc k"])
qed

lemma DividedTick_step:
  assumes "Enabled f" and "Fetcher_ticks_ok cf f"
  shows "Fetcher_DividedTick cf fx fy mx f = Fetcher_step fx fy mx (f\<lparr>Fetcher.ticks := 0\<rparr>)"
proof -
  obtain k where k: "nat (cf - Fetcher.ticks f) = Suc k"
    using assms(2) by (cases "nat (cf - Fetcher.ticks f)") (auto simp: Fetcher_ticks_ok_def)
  then have "Fetcher.ticks f = cf - int (Suc k)" by linarith
  then show ?thesis
    unfolding Fetcher_DividedTick_def k using assms(1) by (rule Ticks_to_step[rotated])
qed

lemma FetchSprite_fields:
  "Enabled (FetchSprite f sp so sl) = Enabled f"
  "Fetcher.ticks (FetchSprite f sp so sl) = Fetcher.ticks f"
  "Fetcher.state (FetchSprite f sp so sl) = ReadSpriteID"
  "oldState (FetchSprite f sp so sl) = Fetcher.state f"
  "tileData (FetchSprite f sp so sl) = tileData f"
  "spriteData (FetchSprite f sp so sl) = spriteData f"
  by (simp_all add: FetchSprite_def)

lemma Start_fields:
  "Enabled (Start f m d tOff tLine sg)"
  "Fetcher.ticks (Start f m d tOff tLine sg) = Fetcher.ticks f"
  "Fetcher.state (Start f m d tOff tLine sg) = ReadTileID"
  "fifo (Start f m d tOff tLine sg) = []"
  "tileData (Start f m d tOff tLine sg) = tileData f"
  "spriteData (Start f m d tOff tLine sg) = spriteData f"
  by (simp_all add: Start_def FIFO_Clear_def)

lemma ticks_ok_zero: "Fetcher_ticks_ok cf f \<Longrightarrow> Fetcher_ticks_ok cf (g\<lparr>Fetcher.ticks := 0\<rparr>)"
  by (simp add: Fetcher_ticks_ok_def)

lemma DividedTick_at_zero:
  assumes "Enabled g" and "Fetcher.ticks g = 0" and "0 < cf"
  shows "Fetcher_DividedTick cf fx fy mx g = Fetcher_step fx fy mx g"
proof -
  have e: "g\<lparr>Fetcher.ticks := 0\<rparr> = g" using assms(2) by simp
  have "Fetcher_ticks_ok cf g" using assms(2,3) by (simp add: Fetcher_ticks_ok_def)
  from DividedTick_step[OF assms(1) this] show ?thesis by (simp only: e)
qed

text \<open>
  C1. After \<open>Start\<close>, the first three divided ticks take the machine through
  \<open>ReadTileID\<close>, \<open>ReadTileData0\<close> and \<open>ReadTileData1\<close> to \<open>PushToFIFO\<close> without touching the
  queue (\<open>q1\<close>, \<open>q2\<close> and \<open>q\<close> are the queue as the consumer has left it before the
  second, third and fourth tick). If the queue then holds at most 8 entries, the fourth divided
  tick appends exactly the 8 entries of the tile buffer and returns to \<open>ReadTileID\<close>; if
  it holds more than 8, a divided tick changes nothing, so the machine stays in \<open>PushToFIFO\<close>
  on every further tick for as long as the size exceeds 8.
\<close>

theorem fetch_cadence:
  assumes "Fetcher_ticks_ok cf f0" and "wf_Fetcher f0"
  shows "\<exists>f1 f2 f3.
     Fetcher_DividedTick cf SpriteFlipX SpriteFlipY mixPixel (Start f0 m d tOff tLine sg) = Inr f1 \<and>
     Fetcher.state f1 = ReadTileData0 \<and> fifo f1 = [] \<and>
     Fetcher_DividedTick cf SpriteFlipX SpriteFlipY mixPixel (f1\<lparr>fifo := q1\<rparr>) = Inr f2 \<and>
     Fetcher.state f2 = ReadTileData1 \<and> fifo f2 = q1 \<and>
     Fetcher_DividedTick cf SpriteFlipX SpriteFlipY mixPixel (f2\<lparr>fifo := q2\<rparr>) = Inr f3 \<and>
     Fetcher.state f3 = PushToFIFO \<and> fifo f3 = q2 \<and> length (tileData f3) = 8 \<and>
     (\<forall>q. FIFO_Size q \<le> 8 \<longrightarrow>
        (\<exists>f4. Fetcher_DividedTick cf SpriteFlipX SpriteFlipY mixPixel (f3\<lparr>fifo := q\<rparr>) = Inr f4 \<and>
              Fetcher.state f4 = ReadTileID \<and>
              fifo f4 = q @ tileData f3 \<and>
              FIFO_Size (fifo f4) = FIFO_Size q + 8)) \<and>
     (\<forall>q. 8 < FIFO_Size q \<longrightarrow>
        Fetcher_DividedTick cf SpriteFlipX SpriteFlipY mixPixel (f3\<lparr>fifo := q\<rparr>) =
          Inr (f3\<lparr>fifo := q\<rparr>))"
proof -
  let ?D = "Fetcher_DividedTick cf SpriteFlipX SpriteFlipY mixPixel"
  let ?s = "Start f0 m d tOff tLine sg"
  have l: "length (tileData f0) = 8" using assms(2) by (simp add: wf_Fetcher_def)
  have cf: "0 < cf" using assms(1) by (simp add: Fetcher_ticks_ok_def)
  define f1 where "f1 = ?s\<lparr>Fetcher.ticks := 0,
     tileID := vRAM ?s (mapAddr ?s + ucast (tileOffset ?s)), Fetcher.state := ReadTileData0\<rparr>"
  have 1: "?D ?s = Inr f1"
    using assms(1) by (simp add: DividedTick_step Start_fields Fetcher_ticks_ok_def step_ReadTileID f1_def)
  define g1 where "g1 = f1\<lparr>fifo := q1\<rparr>"
  define f2 where "f2 = g1\<lparr>tileData := ReadTileLine SpriteFlipX SpriteFlipY g1 0 (dataAddr g1)
      (tileID g1) (signedID g1) (tileLine g1) 0 (tileData g1), Fetcher.state := ReadTileData1\<rparr>"
  have e1: "Enabled g1" "Fetcher.ticks g1 = 0" "Fetcher.state g1 = ReadTileData0"
    "length (tileData g1) = 8"
    using l by (simp_all add: g1_def f1_def Start_def)
  have 2: "?D g1 = Inr f2"
    using e1 cf by (simp add: DividedTick_at_zero step_ReadTileData0 f2_def)
  define g2 where "g2 = f2\<lparr>fifo := q2\<rparr>"
  define f3 where "f3 = g2\<lparr>tileData := ReadTileLine SpriteFlipX SpriteFlipY g2 1 (dataAddr g2)
      (tileID g2) (signedID g2) (tileLine g2) 0 (tileData g2), Fetcher.state := PushToFIFO\<rparr>"
  have e2: "Enabled g2" "Fetcher.ticks g2 = 0" "Fetcher.state g2 = ReadTileData1"
    "length (tileData g2) = 8"
    using e1 by (simp_all add: g2_def f2_def length_ReadTileLine)
  have 3: "?D g2 = Inr f3"
    using e2 cf by (simp add: DividedTick_at_zero step_ReadTileData1 f3_def)
  have e3: "Enabled (f3\<lparr>fifo := q\<rparr>)" "Fetcher.ticks (f3\<lparr>fifo := q\<rparr>) = 0"
    "Fetcher.state (f3\<lparr>fifo := q\<rparr>) = PushToFIFO"
    "length (tileData (f3\<lparr>fifo := q\<rparr>)) = 8" for q
    using e2 by (simp_all add: f3_def length_ReadTileLine)
  have 4: "\<exists>f4. ?D (f3\<lparr>fifo := q\<rparr>) = Inr f4 \<and> Fetcher.state f4 = ReadTileID \<and>
              fifo f4 = q @ tileData f3 \<and> FIFO_Size (fifo f4) = FIFO_Size q + 8"
    if "FIFO_Size q \<le> 8" for q
    using that e3[of q] cf
    by (simp add: DividedTick_at_zero step_PushToFIFO_push FIFO_Size_def)
  have 5: "?D (f3\<lparr>fifo := q\<rparr>) = Inr (f3\<lparr>fifo := q\<rparr>)" if "8 < FIFO_Size q" for q
    using that e3[of q] cf
    by (simp add: DividedTick_at_zero step_PushToFIFO_stall)
  have s: "Fetcher.state f1 = ReadTileData0" "fifo f1 = []" "Fetcher.state f2 = ReadTileData1"
    "fifo f2 = q1" "Fetcher.state f3 = PushToFIFO" "fifo f3 = q2" "length (tileData f3) = 8"
    using e2 by (simp_all add: f1_def f2_def g1_def f3_def g2_def Start_fields length_ReadTileLine)
  show ?thesis
    using 1 2[unfolded g1_def] 3[unfolded g2_def] 4 5 s by blast
qed

lemma example_Fetcher_ok:
  "Fetcher_ticks_ok ClockFactor example_Fetcher" "wf_Fetcher example_Fetcher"
  by (simp_all add: Fetcher_ticks_ok_def wf_Fetcher_def example_Fetcher_def ClockFactor_def)

lemma fifo_same: "fifo g = q \<Longrightarrow> g\<lparr>fifo := q\<rparr> = g"
  by auto

theorem fetch_cadence_witness:
  "Fetcher_ticks_ok ClockFactor example_Fetcher \<and> wf_Fetcher example_Fetcher \<and>
   FIFO_Size [] \<le> 8 \<and> 8 < FIFO_Size [0, 0, 0, 0, 0, 0, 0, 0, 0] \<and>
   (\<exists>f1 f2 f3 f4.
      Fetcher_DividedTick ClockFactor 0x20 0x40 example_mixPixel
        (Start example_Fetcher 0x9800 0x8000 0 0 False) = Inr f1 \<and>
      Fetcher_DividedTick ClockFactor 0x20 0x40 example_mixPixel f1 = Inr f2 \<and>
      Fetcher_DividedTick ClockFactor 0x20 0x40 example_mixPixel f2 = Inr f3 \<and>
      Fetcher.state f3 = PushToFIFO \<and>
      Fetcher_DividedTick ClockFactor 0x20 0x40 example_mixPixel f3 = Inr f4 \<and>
      Fetcher.state f4 = ReadTileID \<and> fifo f4 = tileData f3 \<and> FIFO_Size (fifo f4) = 8 \<and>
      Fetcher_DividedTick ClockFactor 0x20 0x40 example_mixPixel
        (f3\<lparr>fifo := [0, 0, 0, 0, 0, 0, 0, 0, 0]\<rparr>) =
      Inr (f3\<lparr>fifo := [0, 0, 0, 0, 0, 0, 0, 0, 0]\<rparr>))"
proof -
  let ?D = "Fetcher_DividedTick ClockFactor 0x20 0x40 example_mixPixel"
  obtain f1 f2 f3 where
    1: "?D (Start example_Fetcher 0x9800 0x8000 0 0 False) = Inr f1" "fifo f1 = []"
    and 2: "?D (f1\<lparr>fifo := []\<rparr>) = Inr f2" "fifo f2 = []"
    and 3: "?D (f2\<lparr>fifo := []\<rparr>) = Inr f3" "Fetcher.state f3 = PushToFIFO" "fifo f3 = []"
    and 4: "\<forall>q. FIFO_Size q \<le> 8 \<longrightarrow>
        (\<exists>f4. ?D (f3\<lparr>fifo := q\<rparr>) = Inr f4 \<and> Fetcher.state f4 = ReadTileID \<and>
              fifo f4 = q @ tileData f3 \<and> FIFO_Size (fifo f4) = FIFO_Size q + 8)"
    and 5: "\<forall>q. 8 < FIFO_Size q \<longrightarrow> ?D (f3\<lparr>fifo := q\<rparr>) = Inr (f3\<lparr>fifo := q\<rparr>)"
    using fetch_cadence[OF example_Fetcher_ok, of "0x20" "0x40" example_mixPixel "0x9800" "0x8000"
        0 0 False "[]" "[]"]
    by blast
  have a: "FIFO_Size [] \<le> 8" and b: "8 < FIFO_Size [0, 0, 0, 0, 0, 0, 0, 0, 0::u8]"
    by (simp_all add: FIFO_Size_def)
  obtain f4 where f4: "?D (f3\<lparr>fifo := []\<rparr>) = Inr f4" "Fetcher.state f4 = ReadTileID"
    "fifo f4 = [] @ tileData f3" "FIFO_Size (fifo f4) = FIFO_Size [] + 8"
    using 4 a by blast
  have e: "f1\<lparr>fifo := []\<rparr> = f1" "f2\<lparr>fifo := []\<rparr> = f2" "f3\<lparr>fifo := []\<rparr> = f3"
    using 1(2) 2(2) 3(3) by (simp_all add: fifo_same)
  have 6: "?D (f3\<lparr>fifo := [0, 0, 0, 0, 0, 0, 0, 0, 0]\<rparr>) = Inr (f3\<lparr>fifo := [0, 0, 0, 0, 0, 0, 0, 0, 0]\<rparr>)"
    using 5 b by blast
  have 7: "fifo f4 = tileData f3" "FIFO_Size (fifo f4) = 8"
    using f4(3,4) by (simp_all add: FIFO_Size_def)
  show ?thesis
    using example_Fetcher_ok a b 1(1) 2(1)[unfolded e] 3(1,2)[unfolded e] f4(1,2)[unfolded e] 6 7
    by blast
qed

text \<open>Eight calls of \<open>Tick\<close> after \<open>Start\<close>, with \<open>ClockFactor = 2\<close>, on the example.\<close>

lemma example_four_divided_ticks:
  "map_sum id (\<lambda>f. (Fetcher.state f, fifo f, tileOffset f))
     (Fetcher_Ticks 8 ClockFactor 0x20 0x40 example_mixPixel
        (Start example_Fetcher 0x9800 0x8000 0 0 False)) =
   Inr (ReadTileID, [3, 2, 1, 1, 0, 0, 0, 0], 1)"
  by code_simp

text \<open>
  C5. A sprite fetch requested in state \<open>ReadTileData1\<close> runs through \<open>ReadSpriteID\<close>,
  \<open>ReadSpriteFlags\<close>, \<open>ReadSpriteData0\<close> and \<open>ReadSpriteData1\<close> to \<open>MixInFIFO\<close>
  (\<open>q1\<close>, \<open>q2\<close>, \<open>q3\<close> and \<open>q\<close> are the queue as the consumer has left it before each
  later tick). The \<open>MixInFIFO\<close> step, which completes the path once the queue holds at
  least 8 entries, returns the machine to \<open>ReadTileData1\<close>; the queue keeps its length and
  its entries from the ninth on, each of its first 8 entries being mixed with the sprite pixel
  of the same column; the tile buffer and the fetch context are as they were. While the queue
  holds fewer than 8 entries the step changes nothing.
\<close>

theorem sprite_fetch_resumes:
  assumes "Enabled f" and "Fetcher_ticks_ok cf f" and "wf_Fetcher f"
    and "Fetcher.state f = ReadTileData1"
  shows "\<exists>g1 g2 g3 g4.
     Fetcher_DividedTick cf SpriteFlipX SpriteFlipY mixPixel (FetchSprite f sp so sl) = Inr g1 \<and>
     Fetcher.state g1 = ReadSpriteFlags \<and> fifo g1 = fifo f \<and>
     Fetcher_DividedTick cf SpriteFlipX SpriteFlipY mixPixel (g1\<lparr>fifo := q1\<rparr>) = Inr g2 \<and>
     Fetcher.state g2 = ReadSpriteData0 \<and> fifo g2 = q1 \<and>
     Fetcher_DividedTick cf SpriteFlipX SpriteFlipY mixPixel (g2\<lparr>fifo := q2\<rparr>) = Inr g3 \<and>
     Fetcher.state g3 = ReadSpriteData1 \<and> fifo g3 = q2 \<and>
     Fetcher_DividedTick cf SpriteFlipX SpriteFlipY mixPixel (g3\<lparr>fifo := q3\<rparr>) = Inr g4 \<and>
     Fetcher.state g4 = MixInFIFO \<and> fifo g4 = q3 \<and> length (spriteData g4) = 8 \<and>
     (\<forall>q. 8 \<le> FIFO_Size q \<longrightarrow>
        (\<exists>g5. Fetcher_DividedTick cf SpriteFlipX SpriteFlipY mixPixel (g4\<lparr>fifo := q\<rparr>) = Inr g5 \<and>
              Fetcher.state g5 = ReadTileData1 \<and>
              fifo g5 = map (\<lambda>i. mixPixel (q ! i) (spriteData g4 ! i)) [0, 1, 2, 3, 4, 5, 6, 7] @
                        drop 8 q \<and>
              FIFO_Size (fifo g5) = FIFO_Size q \<and>
              tileData g5 = tileData f \<and> tileID g5 = tileID f \<and>
              mapAddr g5 = mapAddr f \<and> dataAddr g5 = dataAddr f \<and>
              tileOffset g5 = tileOffset f \<and> tileLine g5 = tileLine f \<and>
              signedID g5 = signedID f \<and> Enabled g5)) \<and>
     (\<forall>q. FIFO_Size q < 8 \<longrightarrow>
        Fetcher_DividedTick cf SpriteFlipX SpriteFlipY mixPixel (g4\<lparr>fifo := q\<rparr>) =
          Inr (g4\<lparr>fifo := q\<rparr>))"
proof -
  let ?D = "Fetcher_DividedTick cf SpriteFlipX SpriteFlipY mixPixel"
  let ?s = "FetchSprite f sp so sl"
  have l: "length (spriteData f) = 8" using assms(3) by (simp add: wf_Fetcher_def)
  have cf: "0 < cf" using assms(2) by (simp add: Fetcher_ticks_ok_def)
  define g1 where "g1 = ?s\<lparr>Fetcher.ticks := 0,
     spriteID := vRAM ?s (Address (sprite ?s) + 2), Fetcher.state := ReadSpriteFlags\<rparr>"
  have 1: "?D ?s = Inr g1"
    using assms(1,2) by (simp add: DividedTick_step FetchSprite_fields Fetcher_ticks_ok_def
        step_ReadSpriteID g1_def)
  define h1 where "h1 = g1\<lparr>fifo := q1\<rparr>"
  define g2 where "g2 = h1\<lparr>spriteFlags := vRAM h1 (Address (sprite h1) + 3),
     Fetcher.state := ReadSpriteData0\<rparr>"
  have e1: "Enabled h1" "Fetcher.ticks h1 = 0" "Fetcher.state h1 = ReadSpriteFlags"
    "length (spriteData h1) = 8"
    using l assms(1) by (simp_all add: h1_def g1_def FetchSprite_def)
  have 2: "?D h1 = Inr g2"
    using e1 cf by (simp add: DividedTick_at_zero step_ReadSpriteFlags g2_def)
  define h2 where "h2 = g2\<lparr>fifo := q2\<rparr>"
  define g3 where "g3 = h2\<lparr>spriteData := ReadTileLine SpriteFlipX SpriteFlipY h2 0 0x8000
     (spriteID h2) False (spriteLine h2) (spriteFlags h2) (spriteData h2),
     Fetcher.state := ReadSpriteData1\<rparr>"
  have e2: "Enabled h2" "Fetcher.ticks h2 = 0" "Fetcher.state h2 = ReadSpriteData0"
    "length (spriteData h2) = 8"
    using e1 by (simp_all add: h2_def g2_def)
  have 3: "?D h2 = Inr g3"
    using e2 cf by (simp add: DividedTick_at_zero step_ReadSpriteData0 g3_def)
  define h3 where "h3 = g3\<lparr>fifo := q3\<rparr>"
  define g4 where "g4 = h3\<lparr>spriteData := ReadTileLine SpriteFlipX SpriteFlipY h3 1 0x8000
     (spriteID h3) False (spriteLine h3) (spriteFlags h3) (spriteData h3),
     Fetcher.state := MixInFIFO\<rparr>"
  have e3: "Enabled h3" "Fetcher.ticks h3 = 0" "Fetcher.state h3 = ReadSpriteData1"
    "length (spriteData h3) = 8"
    using e2 by (simp_all add: h3_def g3_def length_ReadTileLine)
  have 4: "?D h3 = Inr g4"
    using e3 cf by (simp add: DividedTick_at_zero step_ReadSpriteData1 g4_def)
  have e4: "Enabled (g4\<lparr>fifo := q\<rparr>)" "Fetcher.ticks (g4\<lparr>fifo := q\<rparr>) = 0"
    "Fetcher.state (g4\<lparr>fifo := q\<rparr>) = MixInFIFO" for q
    using e3 by (simp_all add: g4_def)
  have k: "oldState g4 = ReadTileData1" "tileData g4 = tileData f" "tileID g4 = tileID f"
    "mapAddr g4 = mapAddr f" "dataAddr g4 = dataAddr f" "tileOffset g4 = tileOffset f"
    "tileLine g4 = tileLine f" "signedID g4 = signedID f"
    using assms(4)
    by (simp_all add: g4_def h3_def g3_def h2_def g2_def h1_def g1_def FetchSprite_def)
  have 5: "\<exists>g5. ?D (g4\<lparr>fifo := q\<rparr>) = Inr g5 \<and> Fetcher.state g5 = ReadTileData1 \<and>
              fifo g5 = map (\<lambda>i. mixPixel (q ! i) (spriteData g4 ! i)) [0, 1, 2, 3, 4, 5, 6, 7] @
                        drop 8 q \<and>
              FIFO_Size (fifo g5) = FIFO_Size q \<and>
              tileData g5 = tileData f \<and> tileID g5 = tileID f \<and>
              mapAddr g5 = mapAddr f \<and> dataAddr g5 = dataAddr f \<and>
              tileOffset g5 = tileOffset f \<and> tileLine g5 = tileLine f \<and>
              signedID g5 = signedID f \<and> Enabled g5"
    if "8 \<le> FIFO_Size q" for q
    using that e4[of q] cf k
    by (simp add: DividedTick_at_zero step_MixInFIFO_mix FIFO_Size_def)
  have 6: "?D (g4\<lparr>fifo := q\<rparr>) = Inr (g4\<lparr>fifo := q\<rparr>)" if "FIFO_Size q < 8" for q
    using that e4[of q] cf by (simp add: DividedTick_at_zero step_MixInFIFO_stall)
  have s: "Fetcher.state g1 = ReadSpriteFlags" "Fetcher.state g2 = ReadSpriteData0"
    "Fetcher.state g3 = ReadSpriteData1" "Fetcher.state g4 = MixInFIFO" "fifo g4 = q3"
    "length (spriteData g4) = 8" "fifo g1 = fifo f" "fifo g2 = q1" "fifo g3 = q2"
    using e3 by (simp_all add: g1_def g2_def g3_def g4_def h3_def h2_def h1_def length_ReadTileLine
        FetchSprite_def)
  show ?thesis
    using 1 2[unfolded h1_def] 3[unfolded h2_def] 4[unfolded h3_def] 5 6 s by blast
qed

theorem sprite_fetch_resumes_witness:
  "Enabled (example_Fetcher\<lparr>Enabled := True, Fetcher.state := ReadTileData1\<rparr>) \<and>
   Fetcher_ticks_ok ClockFactor (example_Fetcher\<lparr>Enabled := True, Fetcher.state := ReadTileData1\<rparr>) \<and>
   wf_Fetcher (example_Fetcher\<lparr>Enabled := True, Fetcher.state := ReadTileData1\<rparr>) \<and>
   Fetcher.state (example_Fetcher\<lparr>Enabled := True, Fetcher.state := ReadTileData1\<rparr>) = ReadTileData1 \<and>
   8 \<le> FIFO_Size [1, 1, 1, 1, 1, 1, 1, 1, 2] \<and> FIFO_Size [1, 2, 3] < 8 \<and>
   (\<exists>g1 g2 g3 g4 g5.
      Fetcher_DividedTick ClockFactor 0x20 0x40 example_mixPixel
        (FetchSprite (example_Fetcher\<lparr>Enabled := True, Fetcher.state := ReadTileData1\<rparr>)
           \<lparr>Address = 0xFE00\<rparr> 0 0) = Inr g1 \<and>
      Fetcher_DividedTick ClockFactor 0x20 0x40 example_mixPixel g1 = Inr g2 \<and>
      Fetcher_DividedTick ClockFactor 0x20 0x40 example_mixPixel g2 = Inr g3 \<and>
      Fetcher_DividedTick ClockFactor 0x20 0x40 example_mixPixel g3 = Inr g4 \<and>
      Fetcher.state g4 = MixInFIFO \<and>
      Fetcher_DividedTick ClockFactor 0x20 0x40 example_mixPixel
        (g4\<lparr>fifo := [1, 1, 1, 1, 1, 1, 1, 1, 2]\<rparr>) = Inr g5 \<and>
      Fetcher.state g5 = ReadTileData1 \<and>
      fifo g5 = map (\<lambda>i. example_mixPixel ([1, 1, 1, 1, 1, 1, 1, 1, 2] ! i) (spriteData g4 ! i))
                  [0, 1, 2, 3, 4, 5, 6, 7] @ [2] \<and>
      tileData g5 = tileData example_Fetcher \<and>
      Fetcher_DividedTick ClockFactor 0x20 0x40 example_mixPixel (g4\<lparr>fifo := [1, 2, 3]\<rparr>) =
        Inr (g4\<lparr>fifo := [1, 2, 3]\<rparr>))"
proof -
  let ?D = "Fetcher_DividedTick ClockFactor 0x20 0x40 example_mixPixel"
  let ?f = "example_Fetcher\<lparr>Enabled := True, Fetcher.state := ReadTileData1\<rparr>"
  let ?q = "[1, 1, 1, 1, 1, 1, 1, 1, 2] :: u8 list"
  have h: "Enabled ?f" "Fetcher_ticks_ok ClockFactor ?f" "wf_Fetcher ?f"
    "Fetcher.state ?f = ReadTileData1"
    by (simp_all add: Fetcher_ticks_ok_def wf_Fetcher_def example_Fetcher_def ClockFactor_def)
  have q: "8 \<le> FIFO_Size ?q" by (simp add: FIFO_Size_def)
  have t: "tileData ?f = tileData example_Fetcher" by simp
  have fz: "fifo ?f = []" by (simp add: example_Fetcher_def)
  obtain g1 g2 g3 g4 where
    1: "?D (FetchSprite ?f \<lparr>Address = 0xFE00\<rparr> 0 0) = Inr g1" "fifo g1 = fifo ?f"
    and 2: "?D (g1\<lparr>fifo := []\<rparr>) = Inr g2" "fifo g2 = []"
    and 3: "?D (g2\<lparr>fifo := []\<rparr>) = Inr g3" "fifo g3 = []"
    and 4: "?D (g3\<lparr>fifo := []\<rparr>) = Inr g4" "Fetcher.state g4 = MixInFIFO"
    and 5: "\<forall>q. 8 \<le> FIFO_Size q \<longrightarrow>
        (\<exists>g5. ?D (g4\<lparr>fifo := q\<rparr>) = Inr g5 \<and> Fetcher.state g5 = ReadTileData1 \<and>
              fifo g5 = map (\<lambda>i. example_mixPixel (q ! i) (spriteData g4 ! i))
                          [0, 1, 2, 3, 4, 5, 6, 7] @ drop 8 q \<and>
              FIFO_Size (fifo g5) = FIFO_Size q \<and>
              tileData g5 = tileData ?f \<and> tileID g5 = tileID ?f \<and>
              mapAddr g5 = mapAddr ?f \<and> dataAddr g5 = dataAddr ?f \<and>
              tileOffset g5 = tileOffset ?f \<and> tileLine g5 = tileLine ?f \<and>
              signedID g5 = signedID ?f \<and> Enabled g5)"
    and 6: "\<forall>q. FIFO_Size q < 8 \<longrightarrow> ?D (g4\<lparr>fifo := q\<rparr>) = Inr (g4\<lparr>fifo := q\<rparr>)"
    using sprite_fetch_resumes[OF h, where SpriteFlipX="0x20" and SpriteFlipY="0x40"
        and mixPixel=example_mixPixel and sp="\<lparr>Address = 0xFE00\<rparr>" and so=0 and sl=0
        and ?q1.0="[]" and ?q2.0="[]" and ?q3.0="[]"]
    by blast
  obtain g5 where g5: "?D (g4\<lparr>fifo := ?q\<rparr>) = Inr g5" "Fetcher.state g5 = ReadTileData1"
    "fifo g5 = map (\<lambda>i. example_mixPixel (?q ! i) (spriteData g4 ! i))
                 [0, 1, 2, 3, 4, 5, 6, 7] @ drop 8 ?q"
    "tileData g5 = tileData ?f"
    using 5 q by blast
  have d: "drop 8 ?q = [2]" by simp
  have q3: "FIFO_Size [1, 2, 3 :: u8] < 8" by (simp add: FIFO_Size_def)
  have 7: "?D (g4\<lparr>fifo := [1, 2, 3]\<rparr>) = Inr (g4\<lparr>fifo := [1, 2, 3]\<rparr>)"
    using 6 q3 by blast
  have e: "g1\<lparr>fifo := []\<rparr> = g1" "g2\<lparr>fifo := []\<rparr> = g2" "g3\<lparr>fifo := []\<rparr> = g3"
    using 1(2) 2(2) 3(2) fz by (simp_all add: fifo_same)
  show ?thesis
    using h q q3 1(1) 2(1)[unfolded e] 3(1)[unfolded e] 4[unfolded e] g5(1,2) g5(3)[unfolded d]
      g5(4)[unfolded t] 7
    by blast
qed

text \<open>Ten calls of \<open>Tick\<close> after \<open>FetchSprite\<close>, with \<open>ClockFactor = 2\<close>, on the example.\<close>

lemma example_sprite_path:
  "map_sum id (\<lambda>f. (Fetcher.state f, fifo f, tileData f))
     (Fetcher_Ticks 10 ClockFactor 0x20 0x40 example_mixPixel
        (FetchSprite (example_Fetcher\<lparr>Enabled := True, Fetcher.state := ReadTileData1,
                                      fifo := [1, 1, 1, 1, 1, 1, 1, 1, 2]\<rparr>)
           \<lparr>Address = 0xFE00\<rparr> 0 0)) =
   Inr (ReadTileData1, [1, 1, 1, 1, 1, 1, 2, 3, 2], [0, 0, 0, 0, 0, 0, 0, 0])"
  by code_simp

section \<open>The tick accumulators\<close>

lemma PPU_Tick_waiting:
  "PPU.ticks p + 1 < cf \<Longrightarrow>
   PPU_Tick cf p = p\<lparr>Cycle := Cycle p + 1, PPU.ticks := PPU.ticks p + 1\<rparr>"
  by (simp add: PPU_Tick_def Let_def)

lemma PPU_Tick_qualifying_ticks:
  "cf \<le> PPU.ticks p + 1 \<Longrightarrow> PPU.ticks (PPU_Tick cf p) = 0"
  by (simp add: PPU_Tick_def Let_def split: State.splits)

lemma Fetcher_step_total:
  assumes "wf_Fetcher f"
  shows "\<exists>f'. Fetcher_step fx fy mx f = Inr f' \<and> Fetcher.ticks f' = Fetcher.ticks f \<and>
               Enabled f' = Enabled f \<and> wf_Fetcher f'"
  using Fetcher_step_cases[OF assms, of fx fy mx] by metis

text \<open>
  C8. With \<open>cf \<ge> 1\<close>, the accumulator of the scanline controller and that of the pixel
  fetcher stay in \<open>[0, cf)\<close> across \<open>Tick\<close>, whatever else is called in between. A
  controller \<open>Tick\<close>, and a \<open>Tick\<close> of an enabled fetcher, increments the accumulator; below
  \<open>cf\<close> nothing else changes (but the controller's cycle count), and on the call where it
  reaches \<open>cf\<close> it is reset to zero and the step of the state machine runs. A \<open>Tick\<close> of a
  disabled fetcher changes nothing.
\<close>

theorem tick_accumulator_invariant:
  assumes "1 \<le> cf"
  shows "(PPU_ticks_ok cf p \<longrightarrow>
            PPU_ticks_ok cf (PPU_Tick cf p) \<and>
            (PPU.ticks p + 1 < cf \<longrightarrow>
               PPU_Tick cf p = p\<lparr>Cycle := Cycle p + 1, PPU.ticks := PPU.ticks p + 1\<rparr>) \<and>
            (PPU.ticks p + 1 = cf \<longrightarrow> PPU.ticks (PPU_Tick cf p) = 0)) \<and>
         (Fetcher_ticks_ok cf f \<and> wf_Fetcher f \<longrightarrow>
            (\<exists>f'. Fetcher_Tick cf SpriteFlipX SpriteFlipY mixPixel f = Inr f' \<and>
                  Fetcher_ticks_ok cf f' \<and>
                  (\<not> Enabled f \<longrightarrow> f' = f) \<and>
                  (Enabled f \<and> Fetcher.ticks f + 1 < cf \<longrightarrow>
                     f' = f\<lparr>Fetcher.ticks := Fetcher.ticks f + 1\<rparr>) \<and>
                  (Enabled f \<and> Fetcher.ticks f + 1 = cf \<longrightarrow>
                     Fetcher_step SpriteFlipX SpriteFlipY mixPixel (f\<lparr>Fetcher.ticks := 0\<rparr>) = Inr f' \<and>
                     Fetcher.ticks f' = 0))) \<and>
         Fetcher_ticks_ok cf (Start f m d tOff tLine sg) = Fetcher_ticks_ok cf f \<and>
         Fetcher_ticks_ok cf (FetchSprite f sp so sl) = Fetcher_ticks_ok cf f \<and>
         PPU_ticks_ok cf (p\<lparr>PPU.ticks := 0\<rparr>) \<and> Fetcher_ticks_ok cf (f\<lparr>Fetcher.ticks := 0\<rparr>)"
proof -
  have ppu: "PPU_ticks_ok cf (PPU_Tick cf p) \<and>
            (PPU.ticks p + 1 < cf \<longrightarrow>
               PPU_Tick cf p = p\<lparr>Cycle := Cycle p + 1, PPU.ticks := PPU.ticks p + 1\<rparr>) \<and>
            (PPU.ticks p + 1 = cf \<longrightarrow> PPU.ticks (PPU_Tick cf p) = 0)"
    if ok: "PPU_ticks_ok cf p"
  proof (cases "PPU.ticks p + 1 < cf")
    case True
    then show ?thesis using ok by (simp add: PPU_Tick_waiting PPU_ticks_ok_def)
  next
    case False
    then have "PPU.ticks (PPU_Tick cf p) = 0" by (intro PPU_Tick_qualifying_ticks) simp
    then show ?thesis using False assms by (simp add: PPU_ticks_ok_def)
  qed
  have fetcher: "\<exists>f'. Fetcher_Tick cf SpriteFlipX SpriteFlipY mixPixel f = Inr f' \<and>
                  Fetcher_ticks_ok cf f' \<and>
                  (\<not> Enabled f \<longrightarrow> f' = f) \<and>
                  (Enabled f \<and> Fetcher.ticks f + 1 < cf \<longrightarrow>
                     f' = f\<lparr>Fetcher.ticks := Fetcher.ticks f + 1\<rparr>) \<and>
                  (Enabled f \<and> Fetcher.ticks f + 1 = cf \<longrightarrow>
                     Fetcher_step SpriteFlipX SpriteFlipY mixPixel (f\<lparr>Fetcher.ticks := 0\<rparr>) = Inr f' \<and>
                     Fetcher.ticks f' = 0)"
    if ok: "Fetcher_ticks_ok cf f" and wf: "wf_Fetcher f"
  proof (cases "Enabled f")
    case False
    then show ?thesis using ok by (simp add: Tick_disabled)
  next
    case en: True
    show ?thesis
    proof (cases "Fetcher.ticks f + 1 < cf")
      case True
      then show ?thesis using en ok by (simp add: Tick_waiting Fetcher_ticks_ok_def)
    next
      case False
      have "wf_Fetcher (f\<lparr>Fetcher.ticks := 0\<rparr>)" using wf by (simp add: wf_Fetcher_def)
      then obtain f' where
        f': "Fetcher_step SpriteFlipX SpriteFlipY mixPixel (f\<lparr>Fetcher.ticks := 0\<rparr>) = Inr f'"
          "Fetcher.ticks f' = Fetcher.ticks (f\<lparr>Fetcher.ticks := 0\<rparr>)"
        using Fetcher_step_total by blast
      have "Fetcher_Tick cf SpriteFlipX SpriteFlipY mixPixel f = Inr f'"
        using en False f'(1) by (simp add: Tick_qualifying)
      then show ?thesis
        using en False f' assms by (simp add: Fetcher_ticks_ok_def)
    qed
  qed
  have rest: "Fetcher_ticks_ok cf (Start f m d tOff tLine sg) = Fetcher_ticks_ok cf f"
    "Fetcher_ticks_ok cf (FetchSprite f sp so sl) = Fetcher_ticks_ok cf f"
    "PPU_ticks_ok cf (p\<lparr>PPU.ticks := 0\<rparr>)" "Fetcher_ticks_ok cf (f\<lparr>Fetcher.ticks := 0\<rparr>)"
    using assms
    by (simp_all add: Fetcher_ticks_ok_def PPU_ticks_ok_def Start_fields FetchSprite_fields)
  show ?thesis using ppu fetcher rest by blast
qed

theorem tick_accumulator_invariant_witness:
  "1 \<le> ClockFactor \<and>
   PPU_ticks_ok ClockFactor example_PPU \<and> PPU.ticks example_PPU + 1 = ClockFactor \<and>
   PPU_ticks_ok ClockFactor (PPU_Tick ClockFactor example_PPU) \<and>
   PPU.ticks (PPU_Tick ClockFactor example_PPU) = 0 \<and>
   PPU_ticks_ok ClockFactor (example_PPU\<lparr>PPU.ticks := 0\<rparr>) \<and>
   PPU_Tick ClockFactor (example_PPU\<lparr>PPU.ticks := 0\<rparr>) =
     example_PPU\<lparr>PPU.ticks := 0, Cycle := 1, PPU.ticks := 1\<rparr> \<and>
   Fetcher_ticks_ok ClockFactor example_Fetcher \<and> wf_Fetcher example_Fetcher \<and>
   Fetcher_Tick ClockFactor 0x20 0x40 example_mixPixel example_Fetcher = Inr example_Fetcher \<and>
   Fetcher_Tick ClockFactor 0x20 0x40 example_mixPixel (example_Fetcher\<lparr>Enabled := True\<rparr>) =
     Inr (example_Fetcher\<lparr>Enabled := True, Fetcher.ticks := 1\<rparr>) \<and>
   Fetcher_ticks_ok ClockFactor (example_Fetcher\<lparr>Enabled := True, Fetcher.ticks := 1\<rparr>) \<and>
   (\<exists>f'. Fetcher_Tick ClockFactor 0x20 0x40 example_mixPixel
            (example_Fetcher\<lparr>Enabled := True, Fetcher.ticks := 1\<rparr>) = Inr f' \<and>
         Fetcher_step 0x20 0x40 example_mixPixel
            (example_Fetcher\<lparr>Enabled := True, Fetcher.ticks := 0\<rparr>) = Inr f' \<and>
         Fetcher.ticks f' = 0 \<and> Fetcher_ticks_ok ClockFactor f')"
proof -
  let ?f = "example_Fetcher\<lparr>Enabled := True\<rparr>"
  let ?g = "example_Fetcher\<lparr>Enabled := True, Fetcher.ticks := 1\<rparr>"
  let ?p = "example_PPU\<lparr>PPU.ticks := 0\<rparr>"
  have c: "1 \<le> ClockFactor" by (simp add: ClockFactor_def)
  have p: "PPU_ticks_ok ClockFactor example_PPU" "PPU.ticks example_PPU + 1 = ClockFactor"
    by (simp_all add: PPU_ticks_ok_def example_PPU_def ClockFactor_def)
  have p0: "PPU_ticks_ok ClockFactor ?p" "PPU.ticks ?p + 1 < ClockFactor"
    by (simp_all add: PPU_ticks_ok_def ClockFactor_def)
  have d: "Fetcher_ticks_ok ClockFactor example_Fetcher" "wf_Fetcher example_Fetcher"
    "\<not> Enabled example_Fetcher"
    by (simp_all add: Fetcher_ticks_ok_def wf_Fetcher_def example_Fetcher_def ClockFactor_def)
  have f: "Fetcher_ticks_ok ClockFactor ?f" "wf_Fetcher ?f" "Enabled ?f"
    "Fetcher.ticks ?f + 1 < ClockFactor"
    by (simp_all add: Fetcher_ticks_ok_def wf_Fetcher_def example_Fetcher_def ClockFactor_def)
  have g: "Fetcher_ticks_ok ClockFactor ?g" "wf_Fetcher ?g" "Enabled ?g"
    "Fetcher.ticks ?g + 1 = ClockFactor"
    by (simp_all add: Fetcher_ticks_ok_def wf_Fetcher_def example_Fetcher_def ClockFactor_def)
  have u: "?f\<lparr>Fetcher.ticks := Fetcher.ticks ?f + 1\<rparr> = ?g" "?g\<lparr>Fetcher.ticks := 0\<rparr> =
      example_Fetcher\<lparr>Enabled := True, Fetcher.ticks := 0\<rparr>"
    by (simp_all add: example_Fetcher_def)
  have v: "?p\<lparr>Cycle := Cycle ?p + 1, PPU.ticks := PPU.ticks ?p + 1\<rparr> =
           example_PPU\<lparr>PPU.ticks := 0, Cycle := 1, PPU.ticks := 1\<rparr>"
    by (simp add: example_PPU_def)
  have 1: "PPU_ticks_ok ClockFactor (PPU_Tick ClockFactor example_PPU)"
    "PPU.ticks (PPU_Tick ClockFactor example_PPU) = 0"
    using tick_accumulator_invariant[OF c, of example_PPU] p by blast+
  have 2: "PPU_Tick ClockFactor ?p = ?p\<lparr>Cycle := Cycle ?p + 1, PPU.ticks := PPU.ticks ?p + 1\<rparr>"
    using tick_accumulator_invariant[OF c, of ?p] p0 by blast
  have 3: "Fetcher_Tick ClockFactor 0x20 0x40 example_mixPixel example_Fetcher = Inr example_Fetcher"
    using tick_accumulator_invariant[OF c, where f=example_Fetcher and SpriteFlipX="0x20"
        and SpriteFlipY="0x40" and mixPixel=example_mixPixel] d
    by metis
  obtain f' where f': "Fetcher_Tick ClockFactor 0x20 0x40 example_mixPixel ?f = Inr f'"
    "Fetcher_ticks_ok ClockFactor f'" "f' = ?f\<lparr>Fetcher.ticks := Fetcher.ticks ?f + 1\<rparr>"
    using tick_accumulator_invariant[OF c, where f="?f" and SpriteFlipX="0x20"
        and SpriteFlipY="0x40" and mixPixel=example_mixPixel] f
    by blast
  obtain g' where g': "Fetcher_Tick ClockFactor 0x20 0x40 example_mixPixel ?g = Inr g'"
    "Fetcher_ticks_ok ClockFactor g'"
    "Fetcher_step 0x20 0x40 example_mixPixel (?g\<lparr>Fetcher.ticks := 0\<rparr>) = Inr g'"
    "Fetcher.ticks g' = 0"
    using tick_accumulator_invariant[OF c, where f="?g" and SpriteFlipX="0x20"
        and SpriteFlipY="0x40" and mixPixel=example_mixPixel] g
    by blast
  show ?thesis
    using c p p0(1) 1 2[unfolded v] d(1,2) 3 f'(1,2)[unfolded f'(3) u] g'(1,2,4) g'(3)[unfolded u]
    by blast
qed

text \<open>
  A \<open>Tick\<close> of a disabled fetcher leaves the accumulator at 0, below \<open>ClockFactor\<close>.
\<close>

theorem disabled_fetcher_tick_does_not_count:
  "\<not> Enabled example_Fetcher \<and>
   Fetcher_ticks_ok ClockFactor example_Fetcher \<and>
   Fetcher.ticks example_Fetcher + 1 < ClockFactor \<and>
   Fetcher_Tick ClockFactor 0x20 0x40 example_mixPixel example_Fetcher = Inr example_Fetcher \<and>
   Fetcher.ticks example_Fetcher \<noteq> Fetcher.ticks example_Fetcher + 1"
  by (simp add: Fetcher_Tick_def Fetcher_ticks_ok_def example_Fetcher_def ClockFactor_def)

section \<open>Pixels entering the queue\<close>

lemma Fetcher_step_two_bit:
  assumes "two_bit_buffers f" and "Fetcher_step fx fy mx f = Inr f'"
  shows "two_bit_buffers f'"
proof -
  have l: "length (tileData f) = 8" "length (spriteData f) = 8"
    and t3: "\<forall>x\<in>set (tileData f). x \<le> 3" and s3: "\<forall>x\<in>set (spriteData f). x \<le> 3"
    using assms(1) by (simp_all add: two_bit_buffers_def wf_Fetcher_def)
  have rt: "\<forall>x\<in>set (ReadTileLine fx fy f bp a i s tl fl (tileData f)). x \<le> 3"
    for bp a i s tl fl
    using l(1) t3 by (rule ReadTileLine_le3)
  have rs: "\<forall>x\<in>set (ReadTileLine fx fy f bp a i s tl fl (spriteData f)). x \<le> 3"
    for bp a i s tl fl
    using l(2) s3 by (rule ReadTileLine_le3)
  have same: "two_bit_buffers g"
    if "tileData g = tileData f" and "spriteData g = spriteData f" for g
    using that l t3 s3 by (simp add: two_bit_buffers_def wf_Fetcher_def)
  show ?thesis
  proof (cases "Fetcher.state f")
    case ReadTileData0
    then have "f' = f\<lparr>tileData := ReadTileLine fx fy f 0 (dataAddr f) (tileID f) (signedID f)
                                  (tileLine f) 0 (tileData f),
                       Fetcher.state := ReadTileData1\<rparr>"
      using assms(2) by (simp add: step_ReadTileData0)
    then show ?thesis
      using l s3 rt by (simp add: two_bit_buffers_def wf_Fetcher_def length_ReadTileLine)
  next
    case ReadTileData1
    then have "f' = f\<lparr>tileData := ReadTileLine fx fy f 1 (dataAddr f) (tileID f) (signedID f)
                                  (tileLine f) 0 (tileData f),
                       Fetcher.state := PushToFIFO\<rparr>"
      using assms(2) by (simp add: step_ReadTileData1)
    then show ?thesis
      using l s3 rt by (simp add: two_bit_buffers_def wf_Fetcher_def length_ReadTileLine)
  next
    case ReadSpriteData0
    then have "f' = f\<lparr>spriteData := ReadTileLine fx fy f 0 0x8000 (spriteID f) False
                                    (spriteLine f) (spriteFlags f) (spriteData f),
                       Fetcher.state := ReadSpriteData1\<rparr>"
      using assms(2) by (simp add: step_ReadSpriteData0)
    then show ?thesis
      using l t3 rs by (simp add: two_bit_buffers_def wf_Fetcher_def length_ReadTileLine)
  next
    case ReadSpriteData1
    then have "f' = f\<lparr>spriteData := ReadTileLine fx fy f 1 0x8000 (spriteID f) False
                                    (spriteLine f) (spriteFlags f) (spriteData f),
                       Fetcher.state := MixInFIFO\<rparr>"
      using assms(2) by (simp add: step_ReadSpriteData1)
    then show ?thesis
      using l t3 rs by (simp add: two_bit_buffers_def wf_Fetcher_def length_ReadTileLine)
  next
    case PushToFIFO
    then have "tileData f' = tileData f \<and> spriteData f' = spriteData f"
      using l assms(2) by (cases "FIFO_Size (fifo f) \<le> 8")
        (auto simp add: step_PushToFIFO_push step_PushToFIFO_stall)
    then show ?thesis using same by blast
  next
    case MixInFIFO
    then have "tileData f' = tileData f \<and> spriteData f' = spriteData f"
      using assms(2) by (cases "FIFO_Size (fifo f) < 8")
        (auto simp add: step_MixInFIFO_mix step_MixInFIFO_stall)
    then show ?thesis using same by blast
  next
    case ReadTileID
    then have "tileData f' = tileData f \<and> spriteData f' = spriteData f"
      using assms(2) by (auto simp add: step_ReadTileID)
    then show ?thesis using same by blast
  next
    case ReadSpriteID
    then have "tileData f' = tileData f \<and> spriteData f' = spriteData f"
      using assms(2) by (auto simp add: step_ReadSpriteID)
    then show ?thesis using same by blast
  next
    case ReadSpriteFlags
    then have "tileData f' = tileData f \<and> spriteData f' = spriteData f"
      using assms(2) by (auto simp add: step_ReadSpriteFlags)
    then show ?thesis using same by blast
  qed (use assms in \<open>simp_all add: step_other\<close>)
qed

lemma Fetcher_Tick_two_bit:
  assumes "two_bit_buffers f" and "Fetcher_Tick cf fx fy mx f = Inr f'"
  shows "two_bit_buffers f'"
proof (cases "Enabled f \<and> cf \<le> Fetcher.ticks f + 1")
  case True
  have "two_bit_buffers (f\<lparr>Fetcher.ticks := 0\<rparr>)"
    using assms(1) by (simp add: two_bit_buffers_def wf_Fetcher_def)
  moreover have "Fetcher_step fx fy mx (f\<lparr>Fetcher.ticks := 0\<rparr>) = Inr f'"
    using True assms(2) by (simp add: Tick_qualifying)
  ultimately show ?thesis by (rule Fetcher_step_two_bit)
next
  case False
  then have "f' = f \<or> f' = f\<lparr>Fetcher.ticks := Fetcher.ticks f + 1\<rparr>"
    using assms(2) by (cases "Enabled f") (auto simp: Tick_disabled Tick_waiting)
  then show ?thesis
    using assms(1) by (auto simp: two_bit_buffers_def wf_Fetcher_def)
qed

lemma reachable_two_bit:
  "reachable cf fx fy mx f \<Longrightarrow> two_bit_buffers f"
proof (induction rule: reachable.induct)
  case (reachable_Tick f f')
  then show ?case using Fetcher_Tick_two_bit by blast
qed (simp_all add: two_bit_buffers_def wf_Fetcher_def Start_def FetchSprite_def)

lemma Fetcher_step_queue:
  assumes "wf_Fetcher f" and "Fetcher_step fx fy mx f = Inr f'"
  shows "(Fetcher.state f = MixInFIFO \<longrightarrow> FIFO_Size (fifo f') = FIFO_Size (fifo f)) \<and>
         (Fetcher.state f \<noteq> MixInFIFO \<longrightarrow>
            fifo f' = fifo f \<or> Fetcher.state f = PushToFIFO \<and> fifo f' = fifo f @ tileData f)"
proof -
  have l: "length (tileData f) = 8" "length (spriteData f) = 8"
    using assms(1) by (simp_all add: wf_Fetcher_def)
  show ?thesis
  proof (cases "Fetcher.state f")
    case PushToFIFO
    then show ?thesis
      using l assms(2) by (cases "FIFO_Size (fifo f) \<le> 8")
        (auto simp add: step_PushToFIFO_push step_PushToFIFO_stall)
  next
    case MixInFIFO
    then show ?thesis
      using l assms(2) by (cases "FIFO_Size (fifo f) < 8")
        (auto simp add: step_MixInFIFO_mix step_MixInFIFO_stall FIFO_Size_def)
  qed (use l assms(2) in \<open>auto simp add: step_simps step_other\<close>)
qed

lemma Fetcher_Tick_queue:
  assumes "wf_Fetcher f" and "Fetcher_Tick cf fx fy mx f = Inr f'"
  shows "(Fetcher.state f = MixInFIFO \<longrightarrow> FIFO_Size (fifo f') = FIFO_Size (fifo f)) \<and>
         (Fetcher.state f \<noteq> MixInFIFO \<longrightarrow>
            fifo f' = fifo f \<or> Fetcher.state f = PushToFIFO \<and> fifo f' = fifo f @ tileData f)"
proof (cases "Enabled f \<and> cf \<le> Fetcher.ticks f + 1")
  case True
  have "wf_Fetcher (f\<lparr>Fetcher.ticks := 0\<rparr>)"
    using assms(1) by (simp add: wf_Fetcher_def)
  moreover have "Fetcher_step fx fy mx (f\<lparr>Fetcher.ticks := 0\<rparr>) = Inr f'"
    using True assms(2) by (simp add: Tick_qualifying)
  ultimately show ?thesis
    using Fetcher_step_queue[of "f\<lparr>Fetcher.ticks := 0\<rparr>" fx fy mx f'] by simp
next
  case False
  then have "f' = f \<or> f' = f\<lparr>Fetcher.ticks := Fetcher.ticks f + 1\<rparr>"
    using assms(2) by (cases "Enabled f") (auto simp: Tick_disabled Tick_waiting)
  then show ?thesis by auto
qed

text \<open>
  C10. Whatever the buffer held, after the pass of \<open>ReadTileLine\<close> over bit-plane 0 each of
  its entries is 0 or 1; after the pass over bit-plane 1 each entry is at most 3. In every
  fetcher that can arise the tile buffer and the sprite buffer hold only values in \<open>[0,3]\<close>,
  and a \<open>Tick\<close> enqueues either nothing or, in state \<open>PushToFIFO\<close>, exactly the entries of
  the tile buffer (the sprite mixing of \<open>MixInFIFO\<close> enqueues nothing): every value enqueued
  is in \<open>[0,3]\<close>.
\<close>

theorem enqueued_pixels_are_two_bit:
  assumes "reachable cf SpriteFlipX SpriteFlipY mixPixel f"
  shows "(\<forall>data. length data = 8 \<longrightarrow>
            (\<forall>x\<in>set (ReadTileLine SpriteFlipX SpriteFlipY f 0 a i s l flags data). x \<le> 1)) \<and>
         (\<forall>data. length data = 8 \<and> (\<forall>x\<in>set data. x \<le> 1) \<longrightarrow>
            (\<forall>x\<in>set (ReadTileLine SpriteFlipX SpriteFlipY f 1 a i s l flags data). x \<le> 3)) \<and>
         length (tileData f) = 8 \<and> (\<forall>x\<in>set (tileData f). x \<le> 3) \<and>
         length (spriteData f) = 8 \<and> (\<forall>x\<in>set (spriteData f). x \<le> 3) \<and>
         (\<forall>f'. Fetcher_Tick cf SpriteFlipX SpriteFlipY mixPixel f = Inr f' \<longrightarrow>
            (\<exists>pushed. FIFO_Size (fifo f') = FIFO_Size (fifo f) + length pushed \<and>
                      (Fetcher.state f \<noteq> MixInFIFO \<longrightarrow> fifo f' = fifo f @ pushed) \<and>
                      (pushed = [] \<or> Fetcher.state f = PushToFIFO \<and> pushed = tileData f) \<and>
                      (\<forall>x\<in>set pushed. x \<le> 3)))"
proof -
  have tb: "two_bit_buffers f" using assms by (rule reachable_two_bit)
  then have wf: "wf_Fetcher f" and t3: "\<forall>x\<in>set (tileData f). x \<le> 3"
    and l: "length (tileData f) = 8"
    and sp: "length (spriteData f) = 8" "\<forall>x\<in>set (spriteData f). x \<le> 3"
    by (simp_all add: two_bit_buffers_def wf_Fetcher_def)
  have p0: "\<forall>x\<in>set (ReadTileLine SpriteFlipX SpriteFlipY f 0 a i s l flags data). x \<le> 1"
    if "length data = 8" for data
    using that by (rule ReadTileLine_plane0_le1)
  have p1: "\<forall>x\<in>set (ReadTileLine SpriteFlipX SpriteFlipY f 1 a i s l flags data). x \<le> 3"
    if "length data = 8 \<and> (\<forall>x\<in>set data. x \<le> 1)" for data
  proof -
    have "\<forall>x\<in>set data. x \<le> 3" using that by (auto intro: order_trans[where y = "1::u8"])
    then show ?thesis using that by (intro ReadTileLine_le3) simp_all
  qed
  have q: "\<exists>pushed. FIFO_Size (fifo f') = FIFO_Size (fifo f) + length pushed \<and>
                      (Fetcher.state f \<noteq> MixInFIFO \<longrightarrow> fifo f' = fifo f @ pushed) \<and>
                      (pushed = [] \<or> Fetcher.state f = PushToFIFO \<and> pushed = tileData f) \<and>
                      (\<forall>x\<in>set pushed. x \<le> 3)"
    if "Fetcher_Tick cf SpriteFlipX SpriteFlipY mixPixel f = Inr f'" for f'
  proof -
    note k = Fetcher_Tick_queue[OF wf that]
    show ?thesis
    proof (cases "Fetcher.state f \<noteq> MixInFIFO \<and> fifo f' \<noteq> fifo f")
      case True
      then have "Fetcher.state f = PushToFIFO \<and> fifo f' = fifo f @ tileData f" using k by blast
      then show ?thesis
        using t3 by (intro exI[of _ "tileData f"]) (simp add: FIFO_Size_def)
    next
      case False
      then show ?thesis
        using k by (intro exI[of _ "[]"]) auto
    qed
  qed
  show ?thesis using p0 p1 l t3 sp q by blast
qed

theorem enqueued_pixels_are_two_bit_witness:
  "reachable ClockFactor 0x20 0x40 example_mixPixel
     (example_Fetcher\<lparr>Enabled := True, Fetcher.ticks := 1, Fetcher.state := PushToFIFO\<rparr>) \<and>
   length [9, 9, 9, 9, 9, 9, 9, 9 :: u8] = 8 \<and>
   list_all (\<lambda>x. x \<le> 1)
     (ReadTileLine 0x20 0x40
        (example_Fetcher\<lparr>Enabled := True, Fetcher.ticks := 1, Fetcher.state := PushToFIFO\<rparr>)
        0 0x8000 0 False 0 0 [9, 9, 9, 9, 9, 9, 9, 9]) \<and>
   length [1, 0, 1, 1, 0, 0, 0, 0 :: u8] = 8 \<and> list_all (\<lambda>x. x \<le> 1) [1, 0, 1, 1, 0, 0, 0, 0 :: u8] \<and>
   list_all (\<lambda>x. x \<le> 3)
     (ReadTileLine 0x20 0x40
        (example_Fetcher\<lparr>Enabled := True, Fetcher.ticks := 1, Fetcher.state := PushToFIFO\<rparr>)
        1 0x8000 0 False 0 0 [1, 0, 1, 1, 0, 0, 0, 0]) \<and>
   list_all (\<lambda>x. x \<le> 3)
     (tileData (example_Fetcher\<lparr>Enabled := True, Fetcher.ticks := 1,
                                Fetcher.state := PushToFIFO\<rparr>)) \<and>
   (\<exists>f'. Fetcher_Tick ClockFactor 0x20 0x40 example_mixPixel
            (example_Fetcher\<lparr>Enabled := True, Fetcher.ticks := 1, Fetcher.state := PushToFIFO\<rparr>) =
          Inr f' \<and> FIFO_Size (fifo f') = 8 \<and> list_all (\<lambda>x. x \<le> 3) (fifo f'))"
proof -
  let ?f = "example_Fetcher\<lparr>Enabled := True, Fetcher.ticks := 1, Fetcher.state := PushToFIFO\<rparr>"
  have r: "reachable ClockFactor 0x20 0x40 example_mixPixel ?f"
    by (rule reachable_new) (simp_all add: example_Fetcher_def)
  have l: "length [9, 9, 9, 9, 9, 9, 9, 9 :: u8] = 8" by simp
  note t = enqueued_pixels_are_two_bit[OF r, of "0x8000" 0 False 0 0]
  have 0: "list_all (\<lambda>x. x \<le> 1)
             (ReadTileLine 0x20 0x40 ?f 0 0x8000 0 False 0 0 [9, 9, 9, 9, 9, 9, 9, 9])"
    unfolding list_all_iff using t l by blast
  have 1: "list_all (\<lambda>x. x \<le> 3) (tileData ?f)" unfolding list_all_iff using t by blast
  have l1: "length [1, 0, 1, 1, 0, 0, 0, 0 :: u8] = 8"
    and b1: "\<forall>x\<in>set [1, 0, 1, 1, 0, 0, 0, 0 :: u8]. x \<le> 1" by simp_all
  have 2: "list_all (\<lambda>x. x \<le> 3)
             (ReadTileLine 0x20 0x40 ?f 1 0x8000 0 False 0 0 [1, 0, 1, 1, 0, 0, 0, 0])"
    unfolding list_all_iff using t l1 b1 by blast
  have b1': "list_all (\<lambda>x. x \<le> 1) [1, 0, 1, 1, 0, 0, 0, 0 :: u8]" by simp
  let ?g = "?f\<lparr>Fetcher.ticks := 0\<rparr>"
  define f' where "f' = ?g\<lparr>fifo := fifo ?g @ tileData ?g,
     tileOffset := (tileOffset ?g + 1) mod 32, Fetcher.state := ReadTileID\<rparr>"
  have e: "Enabled ?f" and c: "ClockFactor \<le> Fetcher.ticks ?f + 1"
    by (simp_all add: example_Fetcher_def ClockFactor_def)
  have ns: "Fetcher.state ?f \<noteq> MixInFIFO" and fe: "fifo ?f = []"
    by (simp_all add: example_Fetcher_def)
  have "Fetcher_step 0x20 0x40 example_mixPixel ?g = Inr f'"
    unfolding f'_def
    by (rule step_PushToFIFO_push) (simp_all add: example_Fetcher_def FIFO_Size_def)
  then have ft: "Fetcher_Tick ClockFactor 0x20 0x40 example_mixPixel ?f = Inr f'"
    by (simp only: Tick_qualifying[OF e c])
  have sz: "FIFO_Size (fifo f') = 8"
    by (simp add: f'_def example_Fetcher_def FIFO_Size_def)
  obtain pushed where p: "fifo f' = fifo ?f @ pushed" "\<forall>x\<in>set pushed. x \<le> 3"
    using t ft ns by blast
  have "\<forall>x\<in>set (fifo f'). x \<le> 3" using p by (simp only: fe append_Nil)
  then have "list_all (\<lambda>x. x \<le> 3) (fifo f')" by (simp only: list_all_iff)
  then show ?thesis using r l 0 1 l1 b1' 2 ft sz by blast
qed

section \<open>Display enable\<close>

lemma same_but_blankI:
  "LCDC p AND NOT LCDCDisplayEnable = c AND NOT LCDCDisplayEnable \<Longrightarrow>
   not_blank (LCD p) = not_blank t \<Longrightarrow>
   same_but_blank p (p\<lparr>LCDC := c, LCD := t\<rparr>)"
  by (simp add: same_but_blank_def)

lemma same_but_blankE:
  assumes "same_but_blank p q"
  obtains c t where "q = p\<lparr>LCDC := c, LCD := t\<rparr>"
    and "LCDC p AND NOT LCDCDisplayEnable = c AND NOT LCDCDisplayEnable"
    and "not_blank (LCD p) = not_blank t"
  using assms unfolding same_but_blank_def by metis

lemma select_bits:
  assumes "x AND NOT LCDCDisplayEnable = y AND NOT LCDCDisplayEnable"
  shows "x AND LCDCBGTileMapDisplayeSelect = y AND LCDCBGTileMapDisplayeSelect"
    and "x AND LCDCBGWindowTileDataSelect = y AND LCDCBGWindowTileDataSelect"
proof -
  have m: "NOT LCDCDisplayEnable AND LCDCBGTileMapDisplayeSelect = LCDCBGTileMapDisplayeSelect"
    "NOT LCDCDisplayEnable AND LCDCBGWindowTileDataSelect = LCDCBGWindowTileDataSelect"
    by (simp_all add: LCDCBGTileMapDisplayeSelect_def LCDCBGWindowTileDataSelect_def
        LCDCDisplayEnable_def)
  have k: "x AND m = y AND m" if "NOT LCDCDisplayEnable AND m = m" for m
  proof -
    have "x AND m = (x AND NOT LCDCDisplayEnable) AND m" by (simp add: and.assoc that)
    also have "\<dots> = (y AND NOT LCDCDisplayEnable) AND m" by (simp only: assms)
    also have "\<dots> = y AND m" by (simp add: and.assoc that)
    finally show ?thesis .
  qed
  show "x AND LCDCBGTileMapDisplayeSelect = y AND LCDCBGTileMapDisplayeSelect"
    by (rule k[OF m(1)])
  show "x AND LCDCBGWindowTileDataSelect = y AND LCDCBGWindowTileDataSelect"
    by (rule k[OF m(2)])
qed

lemma PPU_Tick_alt:
  "PPU_Tick cf p =
     (if PPU.ticks p + 1 < cf then p\<lparr>Cycle := Cycle p + 1, PPU.ticks := PPU.ticks p + 1\<rparr>
      else let p3 = p\<lparr>Cycle := Cycle p + 1, PPU.ticks := 0,
                       LCD := LCD p @ (if LCDC p AND LCDCDisplayEnable = 0 then [LCD_Blank] else [])\<rparr>
           in if PPU.state p = OAMSearch
              then (if oamIndex p + 1 \<ge> 40
                    then p3\<lparr>oamIndex := oamIndex p + 1, PPU.state := PixelTransfer\<rparr>
                    else p3\<lparr>oamIndex := oamIndex p + 1\<rparr>)
              else p3)"
  by (cases "PPU.state p") (simp_all add: PPU_Tick_def Let_def)

lemma not_blank_append: "not_blank (xs @ ys) = not_blank xs @ not_blank ys"
  by (simp add: not_blank_def)

lemma not_blank_simps:
  "not_blank [] = []" "not_blank [LCD_Blank] = []" "not_blank [LCD_Write x] = [LCD_Write x]"
  "not_blank [LCD_HBlank] = [LCD_HBlank]" "not_blank [LCD_VBlank] = [LCD_VBlank]"
  by (simp_all add: not_blank_def)

lemma bind_same:
  assumes "rel_sum (=) R m m'"
    and "\<And>a b. R a b \<Longrightarrow> rel_sum (=) S (f a) (g b)"
  shows "rel_sum (=) S (case m of Inl e \<Rightarrow> Inl e | Inr a \<Rightarrow> f a)
                       (case m' of Inl e \<Rightarrow> Inl e | Inr b \<Rightarrow> g b)"
  using assms by (cases m; cases m') simp_all

lemma PPU_Pop_same:
  assumes "same_but_blank p q"
  shows "same_step (PPU_Pop p) (PPU_Pop q)"
proof -
  obtain c t where q: "q = p\<lparr>LCDC := c, LCD := t\<rparr>"
    and c: "LCDC p AND NOT LCDCDisplayEnable = c AND NOT LCDCDisplayEnable"
    and t: "not_blank (LCD p) = not_blank t"
    using assms by (rule same_but_blankE)
  show ?thesis
    unfolding q using c t
    by (simp add: PPU_Pop_def same_but_blank_def not_blank_append split: option.splits item.splits)
qed

lemma Pop2_alt:
  "Pop2 p x =
     (case PPU_Pop p of
        Inl e \<Rightarrow> Inl e
      | Inr a \<Rightarrow>
          (case PPU_Pop (fst a) of
             Inl e \<Rightarrow> Inl e
           | Inr r \<Rightarrow> Inr (fst r, x + snd a + snd r)))"
  by (simp add: Pop2_def split: sum.splits prod.splits)

lemma Pop2_same:
  assumes "same_but_blank p q"
  shows "same_step (Pop2 p x) (Pop2 q x)"
  unfolding Pop2_alt
proof (rule bind_same[OF PPU_Pop_same[OF assms]])
  fix a b :: "PPU \<times> u64"
  assume ab: "same_but_blank (fst a) (fst b) \<and> snd a = snd b"
  show "same_step
          (case PPU_Pop (fst a) of Inl e \<Rightarrow> Inl e | Inr r \<Rightarrow> Inr (fst r, x + snd a + snd r))
          (case PPU_Pop (fst b) of Inl e \<Rightarrow> Inl e | Inr r \<Rightarrow> Inr (fst r, x + snd b + snd r))"
    by (rule bind_same[OF PPU_Pop_same]) (use ab in simp_all)
qed

lemma PPU_Tick_same:
  assumes "same_but_blank p q"
  shows "same_but_blank (PPU_Tick cf p) (PPU_Tick cf q)"
proof -
  obtain c t where q: "q = p\<lparr>LCDC := c, LCD := t\<rparr>"
    and c: "LCDC p AND NOT LCDCDisplayEnable = c AND NOT LCDCDisplayEnable"
    and t: "not_blank (LCD p) = not_blank t"
    using assms by (rule same_but_blankE)
  show ?thesis
    unfolding q using c t
    by (simp add: PPU_Tick_alt same_but_blank_def not_blank_append not_blank_simps Let_def)
qed

lemma reads_same:
  assumes "same_but_blank p q"
  shows "PPU_Read p a = PPU_Read q a" "FetchTileNumber p x y = FetchTileNumber q x y"
    "SCY p = SCY q" "LY p = LY q" "FIFO p = FIFO q"
    "LCDC p AND LCDCBGWindowTileDataSelect = LCDC q AND LCDCBGWindowTileDataSelect"
proof -
  obtain c t where q: "q = p\<lparr>LCDC := c, LCD := t\<rparr>"
    and c: "LCDC p AND NOT LCDCDisplayEnable = c AND NOT LCDCDisplayEnable"
    using assms by (rule same_but_blankE)
  note b = select_bits[OF c]
  show "PPU_Read p a = PPU_Read q a" "FetchTileNumber p x y = FetchTileNumber q x y"
    "SCY p = SCY q" "LY p = LY q" "FIFO p = FIFO q"
    "LCDC p AND LCDCBGWindowTileDataSelect = LCDC q AND LCDCBGWindowTileDataSelect"
    unfolding q using b by (simp_all add: PPU_Read_def FetchTileNumber_def Let_def)
qed

lemma FIFO_update_same:
  "same_but_blank p q \<Longrightarrow> same_but_blank (p\<lparr>FIFO := x\<rparr>) (q\<lparr>FIFO := x\<rparr>)"
  by (erule same_but_blankE) (simp add: same_but_blank_def)

lemma Run_transfer_body_alt:
  "Run_transfer_body cf held p x =
     (case Pop2 p x of
        Inl e \<Rightarrow> Inl e
      | Inr a1 \<Rightarrow>
          (case Pop2 (fst a1) (snd a1) of
             Inl e \<Rightarrow> Inl e
           | Inr a2 \<Rightarrow>
               (case Pop2 (fst a2) (snd a2) of
                  Inl e \<Rightarrow> Inl e
                | Inr a3 \<Rightarrow>
                    (case Pop2 (fst a3) (snd a3) of
                       Inl e \<Rightarrow> Inl e
                     | Inr a4 \<Rightarrow>
                         (case fifo_PushAll (FIFO (fst a4))
                                 (transfer_row held (fst a1) (snd a1) (fst a2) (fst a3)) of
                            Inl e \<Rightarrow> Inl e
                          | Inr q \<Rightarrow> Inr (PPU_Tick cf ((fst a4)\<lparr>FIFO := q\<rparr>), snd a4))))))"
  by (simp add: Run_transfer_body_def transfer_row_def Let_def split: sum.splits prod.splits)

lemma transfer_row_same:
  assumes "same_but_blank p1 q1" and "same_but_blank p2 q2" and "same_but_blank p3 q3"
  shows "transfer_row held p1 x1 p2 p3 = transfer_row held q1 x1 q2 q3"
  unfolding transfer_row_def
  by (simp only: reads_same(1)[OF assms(2)] reads_same(1)[OF assms(3)]
        reads_same(2,3,4)[OF assms(1)] reads_same(6)[OF assms(2)])

lemma Run_transfer_body_same:
  assumes "same_but_blank p q"
  shows "same_step (Run_transfer_body cf held p x) (Run_transfer_body cf held q x)"
  unfolding Run_transfer_body_alt
proof (rule bind_same[OF Pop2_same[OF assms]])
  fix a1 b1 :: "PPU \<times> u64"
  assume r1: "same_but_blank (fst a1) (fst b1) \<and> snd a1 = snd b1"
  then have s1: "same_but_blank (fst a1) (fst b1)" and x1: "snd b1 = snd a1" by simp_all
  show "same_step
     (case Pop2 (fst a1) (snd a1) of Inl e \<Rightarrow> Inl e
      | Inr a2 \<Rightarrow>
          (case Pop2 (fst a2) (snd a2) of Inl e \<Rightarrow> Inl e
           | Inr a3 \<Rightarrow>
               (case Pop2 (fst a3) (snd a3) of Inl e \<Rightarrow> Inl e
                | Inr a4 \<Rightarrow>
                    (case fifo_PushAll (FIFO (fst a4))
                            (transfer_row held (fst a1) (snd a1) (fst a2) (fst a3)) of
                       Inl e \<Rightarrow> Inl e
                     | Inr q \<Rightarrow> Inr (PPU_Tick cf ((fst a4)\<lparr>FIFO := q\<rparr>), snd a4)))))
     (case Pop2 (fst b1) (snd b1) of Inl e \<Rightarrow> Inl e
      | Inr a2 \<Rightarrow>
          (case Pop2 (fst a2) (snd a2) of Inl e \<Rightarrow> Inl e
           | Inr a3 \<Rightarrow>
               (case Pop2 (fst a3) (snd a3) of Inl e \<Rightarrow> Inl e
                | Inr a4 \<Rightarrow>
                    (case fifo_PushAll (FIFO (fst a4))
                            (transfer_row held (fst b1) (snd b1) (fst a2) (fst a3)) of
                       Inl e \<Rightarrow> Inl e
                     | Inr q \<Rightarrow> Inr (PPU_Tick cf ((fst a4)\<lparr>FIFO := q\<rparr>), snd a4)))))"
    unfolding x1
  proof (rule bind_same[OF Pop2_same[OF s1]])
    fix a2 b2 :: "PPU \<times> u64"
    assume r2: "same_but_blank (fst a2) (fst b2) \<and> snd a2 = snd b2"
    then have s2: "same_but_blank (fst a2) (fst b2)" and x2: "snd b2 = snd a2" by simp_all
    show "same_step
       (case Pop2 (fst a2) (snd a2) of Inl e \<Rightarrow> Inl e
        | Inr a3 \<Rightarrow>
            (case Pop2 (fst a3) (snd a3) of Inl e \<Rightarrow> Inl e
             | Inr a4 \<Rightarrow>
                 (case fifo_PushAll (FIFO (fst a4))
                         (transfer_row held (fst a1) (snd a1) (fst a2) (fst a3)) of
                    Inl e \<Rightarrow> Inl e
                  | Inr q \<Rightarrow> Inr (PPU_Tick cf ((fst a4)\<lparr>FIFO := q\<rparr>), snd a4))))
       (case Pop2 (fst b2) (snd b2) of Inl e \<Rightarrow> Inl e
        | Inr a3 \<Rightarrow>
            (case Pop2 (fst a3) (snd a3) of Inl e \<Rightarrow> Inl e
             | Inr a4 \<Rightarrow>
                 (case fifo_PushAll (FIFO (fst a4))
                         (transfer_row held (fst b1) (snd a1) (fst b2) (fst a3)) of
                    Inl e \<Rightarrow> Inl e
                  | Inr q \<Rightarrow> Inr (PPU_Tick cf ((fst a4)\<lparr>FIFO := q\<rparr>), snd a4))))"
      unfolding x2
    proof (rule bind_same[OF Pop2_same[OF s2]])
      fix a3 b3 :: "PPU \<times> u64"
      assume r3: "same_but_blank (fst a3) (fst b3) \<and> snd a3 = snd b3"
      then have s3: "same_but_blank (fst a3) (fst b3)" and x3: "snd b3 = snd a3" by simp_all
      have row: "transfer_row held (fst b1) (snd a1) (fst b2) (fst b3) =
                 transfer_row held (fst a1) (snd a1) (fst a2) (fst a3)"
        using transfer_row_same[OF s1 s2 s3] by simp
      show "same_step
         (case Pop2 (fst a3) (snd a3) of Inl e \<Rightarrow> Inl e
          | Inr a4 \<Rightarrow>
              (case fifo_PushAll (FIFO (fst a4))
                      (transfer_row held (fst a1) (snd a1) (fst a2) (fst a3)) of
                 Inl e \<Rightarrow> Inl e
               | Inr q \<Rightarrow> Inr (PPU_Tick cf ((fst a4)\<lparr>FIFO := q\<rparr>), snd a4)))
         (case Pop2 (fst b3) (snd b3) of Inl e \<Rightarrow> Inl e
          | Inr a4 \<Rightarrow>
              (case fifo_PushAll (FIFO (fst a4))
                      (transfer_row held (fst b1) (snd a1) (fst b2) (fst b3)) of
                 Inl e \<Rightarrow> Inl e
               | Inr q \<Rightarrow> Inr (PPU_Tick cf ((fst a4)\<lparr>FIFO := q\<rparr>), snd a4)))"
        unfolding x3 row
      proof (rule bind_same[OF Pop2_same[OF s3]])
        fix a4 b4 :: "PPU \<times> u64"
        assume r4: "same_but_blank (fst a4) (fst b4) \<and> snd a4 = snd b4"
        then have s4: "same_but_blank (fst a4) (fst b4)" and x4: "snd b4 = snd a4" by simp_all
        let ?row = "transfer_row held (fst a1) (snd a1) (fst a2) (fst a3)"
        show "same_step
           (case fifo_PushAll (FIFO (fst a4)) ?row of Inl e \<Rightarrow> Inl e
            | Inr q \<Rightarrow> Inr (PPU_Tick cf ((fst a4)\<lparr>FIFO := q\<rparr>), snd a4))
           (case fifo_PushAll (FIFO (fst b4)) ?row of Inl e \<Rightarrow> Inl e
            | Inr q \<Rightarrow> Inr (PPU_Tick cf ((fst b4)\<lparr>FIFO := q\<rparr>), snd b4))"
          unfolding x4 reads_same(5)[OF s4, symmetric]
          using PPU_Tick_same[OF FIFO_update_same[OF s4]]
          by (cases "fifo_PushAll (FIFO (fst a4)) ?row") simp_all
      qed
    qed
  qed
qed

lemma Run_transfer_same:
  "same_but_blank p q \<Longrightarrow>
   same_outcome (Run_transfer fuel cf held p x) (Run_transfer fuel cf held q x)"
proof (induction fuel arbitrary: p q x)
  case 0
  then show ?case by simp
next
  case (Suc fuel)
  note b = Run_transfer_body_same[OF Suc.prems, of cf held x]
  show ?case
  proof (cases "x < 160")
    case False
    then show ?thesis using Suc.prems by simp
  next
    case True
    show ?thesis
    proof (cases "Run_transfer_body cf held p x")
      case (Inl e)
      then show ?thesis using b True by (cases "Run_transfer_body cf held q x") simp_all
    next
      case (Inr a)
      then obtain a' where a': "Run_transfer_body cf held q x = Inr a'"
        "same_but_blank (fst a) (fst a')" "snd a' = snd a"
        using b by (cases "Run_transfer_body cf held q x") simp_all
      show ?thesis
        using True Inr a'(1,3) Suc.IH[OF a'(2), of "snd a"]
        by (simp add: split_beta)
    qed
  qed
qed

lemma line_end_same:
  "same_but_blank p q \<Longrightarrow>
   same_but_blank (p\<lparr>LCD := LCD p @ [LCD_HBlank], LY := LY p + 1\<rparr>)
                  (q\<lparr>LCD := LCD q @ [LCD_HBlank], LY := LY q + 1\<rparr>)"
  by (erule same_but_blankE) (simp add: same_but_blank_def not_blank_append)

lemma Run_lines_same:
  "same_but_blank p q \<Longrightarrow>
   same_outcome (Run_lines n fuel cf held p) (Run_lines n fuel cf held q)"
proof (induction n arbitrary: p q)
  case 0
  then show ?case using reads_same(4)[OF 0] by simp
next
  case (Suc n)
  note ly = reads_same(4)[OF Suc.prems]
  note t = Run_transfer_same[OF Suc.prems, of fuel cf held 0]
  show ?case
  proof (cases "LY p < 144")
    case False
    then show ?thesis using Suc.prems ly by simp
  next
    case True
    show ?thesis
    proof (cases "Run_transfer fuel cf held p 0")
      case None
      then show ?thesis using t True ly by (cases "Run_transfer fuel cf held q 0") simp_all
    next
      case (Some r)
      show ?thesis
      proof (cases r)
        case (Inl e)
        then show ?thesis
          using t True ly Some
          by (cases "Run_transfer fuel cf held q 0" rule: same_outcome.cases[of "(_, _)"]) auto
      next
        case (Inr p')
        then obtain q' where q': "Run_transfer fuel cf held q 0 = Some (Inr q')" "same_but_blank p' q'"
          using t Some
          by (cases "(Run_transfer fuel cf held p 0, Run_transfer fuel cf held q 0)" rule: same_outcome.cases) auto
        show ?thesis
          using True ly Some Inr q'(1) Suc.IH[OF line_end_same[OF q'(2)]]
          by simp
      qed
    qed
  qed
qed

lemma frame_end_same:
  "same_but_blank p q \<Longrightarrow>
   same_but_blank
     ((if LY (p\<lparr>LCD := LCD p @ [LCD_VBlank]\<rparr>) < 154
       then p\<lparr>LCD := LCD p @ [LCD_VBlank]\<rparr>\<lparr>LY := 154\<rparr>
       else p\<lparr>LCD := LCD p @ [LCD_VBlank]\<rparr>)\<lparr>LY := 0\<rparr>)
     ((if LY (q\<lparr>LCD := LCD q @ [LCD_VBlank]\<rparr>) < 154
       then q\<lparr>LCD := LCD q @ [LCD_VBlank]\<rparr>\<lparr>LY := 154\<rparr>
       else q\<lparr>LCD := LCD q @ [LCD_VBlank]\<rparr>)\<lparr>LY := 0\<rparr>)"
  by (erule same_but_blankE) (simp add: same_but_blank_def not_blank_append)

lemma Run_frame_same:
  assumes "same_but_blank p q"
  shows "same_outcome (Run_frame fuel cf held p) (Run_frame fuel cf held q)"
proof -
  note l = Run_lines_same[OF assms, of 144 fuel cf held]
  show ?thesis
  proof (cases "(Run_lines 144 fuel cf held p, Run_lines 144 fuel cf held q)" rule: same_outcome.cases)
    case (3 p' q')
    then have "same_but_blank p' q'" using l by simp
    then show ?thesis
      using 3 frame_end_same[of p' q'] by (simp add: Run_frame_def Let_def)
  qed (use l in \<open>auto simp: Run_frame_def\<close>)
qed

lemma Run_frames_same:
  "same_but_blank p q \<Longrightarrow>
   same_outcome (Run_frames n fuel cf held p) (Run_frames n fuel cf held q)"
proof (induction n arbitrary: p q)
  case 0
  then show ?case by simp
next
  case (Suc n)
  note f = Run_frame_same[OF Suc.prems, of fuel cf held]
  show ?case
  proof (cases "(Run_frame fuel cf held p, Run_frame fuel cf held q)" rule: same_outcome.cases)
    case (3 p' q')
    then have "same_but_blank p' q'" using f by simp
    then show ?thesis using 3 Suc.IH by simp
  qed (use f in auto)
qed

lemma same_outcome_Inr:
  "same_outcome r r' \<Longrightarrow> r = Some (Inr a) \<Longrightarrow> \<exists>b. r' = Some (Inr b) \<and> same_but_blank a b"
  by (cases "(r, r')" rule: same_outcome.cases) auto

lemma off_on_same: "same_but_blank (display_off p) (display_on p)"
proof -
  have "(x AND NOT LCDCDisplayEnable) AND NOT LCDCDisplayEnable =
        (x OR LCDCDisplayEnable) AND NOT LCDCDisplayEnable" for x :: u8
    by (simp add: bit.conj_disj_distrib2 and.assoc)
  then show ?thesis
    by (simp add: same_but_blank_def display_off_def display_on_def)
qed

lemma same_but_blank_fields:
  assumes "same_but_blank a b"
  shows "Cycle a = Cycle b \<and> PPU.ticks a = PPU.ticks b \<and> PPU.state a = PPU.state b \<and>
         oamIndex a = oamIndex b \<and> LY a = LY b \<and> FIFO a = FIFO b \<and>
         not_blank (LCD a) = not_blank (LCD b)"
  using assms by (rule same_but_blankE) simp

lemma display_bit:
  "LCDC (display_off p) AND LCDCDisplayEnable = 0"
  "LCDC (display_on p) AND LCDCDisplayEnable \<noteq> 0"
proof -
  show "LCDC (display_off p) AND LCDCDisplayEnable = 0"
    by (simp add: display_off_def and.assoc)
  have "(LCDC p OR LCDCDisplayEnable) AND LCDCDisplayEnable = LCDCDisplayEnable"
    by (simp add: bit.conj_disj_distrib2)
  then show "LCDC (display_on p) AND LCDCDisplayEnable \<noteq> 0"
    by (simp add: display_on_def LCDCDisplayEnable_def)
qed

lemma same_outcome_Inl:
  "same_outcome r r' \<Longrightarrow> r = Some (Inl e) \<Longrightarrow> r' = Some (Inl e)"
  by (cases "(r, r')" rule: same_outcome.cases) auto

lemma same_outcome_None:
  "same_outcome r r' \<Longrightarrow> (r = None) = (r' = None)"
  by (cases "(r, r')" rule: same_outcome.cases) auto

text \<open>
  C7. Clearing the display-enable bit changes nothing but the \<open>Blank\<close> calls on the sink.
  Every qualifying \<open>Tick\<close> then calls \<open>Blank\<close> once, and none when the bit is set. \<open>Pop\<close>
  does not look at the bit: with the bit cleared it returns 0 on an empty queue, writes a
  popped element that holds an \<open>int\<close> to the sink as fetched, and panics on a popped element
  that holds a \<open>uint8\<close>, as it does with the bit set. Under either representation of the
  pixels that \<open>Run\<close> pushes, the pixel transfer of a line and any number of frames of \<open>Run\<close>
  end the same way with the bit cleared and with the bit set: both still running, both in the
  same panic, or both done with the same cycle count, tick accumulator, phase, OAM index,
  \<open>LY\<close>, queue and calls on the sink other than \<open>Blank\<close>.
\<close>

theorem display_enable_only_adds_blank:
  "same_but_blank (PPU_Tick cf (display_off p)) (PPU_Tick cf (display_on p)) \<and>
   LCD (PPU_Tick cf (display_off p)) =
     LCD p @ (if PPU.ticks p + 1 < cf then [] else [LCD_Blank]) \<and>
   LCD (PPU_Tick cf (display_on p)) = LCD p \<and>
   PPU_Pop (display_off p) = map_sum id (\<lambda>r. (display_off (fst r), snd r)) (PPU_Pop p) \<and>
   (FIFO p = [] \<longrightarrow> PPU_Pop (display_off p) = Inr (display_off p, 0)) \<and>
   (\<forall>v q. FIFO p = Item_int v # q \<longrightarrow>
      PPU_Pop (display_off p) =
        Inr ((display_off p)\<lparr>FIFO := q, LCD := LCD p @ [LCD_Write v]\<rparr>, 1)) \<and>
   (\<forall>v q. FIFO p = Item_uint8 v # q \<longrightarrow> PPU_Pop (display_off p) = Inl TypeAssertion) \<and>
   same_outcome (Run_transfer fuel cf held (display_off p) x)
     (Run_transfer fuel cf held (display_on p) x) \<and>
   same_outcome (Run_frames n fuel cf held (display_off p))
     (Run_frames n fuel cf held (display_on p)) \<and>
   (Run_frames n fuel cf held (display_off p) = None) =
     (Run_frames n fuel cf held (display_on p) = None) \<and>
   (\<forall>e. Run_frames n fuel cf held (display_off p) = Some (Inl e) \<longrightarrow>
      Run_frames n fuel cf held (display_on p) = Some (Inl e)) \<and>
   (\<forall>a. Run_frames n fuel cf held (display_off p) = Some (Inr a) \<longrightarrow>
      (\<exists>b. Run_frames n fuel cf held (display_on p) = Some (Inr b) \<and>
           Cycle a = Cycle b \<and> PPU.ticks a = PPU.ticks b \<and> PPU.state a = PPU.state b \<and>
           oamIndex a = oamIndex b \<and> LY a = LY b \<and> FIFO a = FIFO b \<and>
           not_blank (LCD a) = not_blank (LCD b)))"
proof -
  note s = off_on_same[of p]
  have 1: "same_but_blank (PPU_Tick cf (display_off p)) (PPU_Tick cf (display_on p))"
    using s by (rule PPU_Tick_same)
  have 2: "LCD (PPU_Tick cf (display_off p)) =
     LCD p @ (if PPU.ticks p + 1 < cf then [] else [LCD_Blank])"
    using display_bit(1)[of p] by (simp add: PPU_Tick_alt Let_def) (simp add: display_off_def)
  have 3: "LCD (PPU_Tick cf (display_on p)) = LCD p"
    using display_bit(2)[of p] by (simp add: PPU_Tick_alt Let_def) (simp add: display_on_def)
  have 4: "PPU_Pop (display_off p) =
             map_sum id (\<lambda>r. (display_off (fst r), snd r)) (PPU_Pop p)"
    by (simp add: PPU_Pop_def display_off_def split: option.splits item.splits)
  have 5: "PPU_Pop (display_off p) = Inr (display_off p, 0)" if "FIFO p = []"
    using that by (simp add: PPU_Pop_def fifo_Pop_def display_off_def)
  have 6: "PPU_Pop (display_off p) =
             Inr ((display_off p)\<lparr>FIFO := q, LCD := LCD p @ [LCD_Write v]\<rparr>, 1)"
    if "FIFO p = Item_int v # q" for v q
    using that by (simp add: PPU_Pop_def fifo_Pop_def display_off_def)
  have 7: "PPU_Pop (display_off p) = Inl TypeAssertion" if "FIFO p = Item_uint8 v # q" for v q
    using that by (simp add: PPU_Pop_def fifo_Pop_def display_off_def)
  have 8: "same_outcome (Run_transfer fuel cf held (display_off p) x)
             (Run_transfer fuel cf held (display_on p) x)"
    using s by (rule Run_transfer_same)
  have 9: "same_outcome (Run_frames n fuel cf held (display_off p))
             (Run_frames n fuel cf held (display_on p))"
    using s by (rule Run_frames_same)
  note 10 = same_outcome_None[OF 9]
  have 11: "Run_frames n fuel cf held (display_on p) = Some (Inl e)"
    if "Run_frames n fuel cf held (display_off p) = Some (Inl e)" for e
    using same_outcome_Inl[OF 9 that] .
  have 12: "\<exists>b. Run_frames n fuel cf held (display_on p) = Some (Inr b) \<and>
           Cycle a = Cycle b \<and> PPU.ticks a = PPU.ticks b \<and> PPU.state a = PPU.state b \<and>
           oamIndex a = oamIndex b \<and> LY a = LY b \<and> FIFO a = FIFO b \<and>
           not_blank (LCD a) = not_blank (LCD b)"
    if h: "Run_frames n fuel cf held (display_off p) = Some (Inr a)" for a
  proof -
    obtain b where b: "Run_frames n fuel cf held (display_on p) = Some (Inr b)"
      "same_but_blank a b"
      using same_outcome_Inr[OF 9 h] by blast
    show ?thesis using b same_but_blank_fields[OF b(2)] by blast
  qed
  show ?thesis
    apply (intro conjI allI impI)
    using 1 2 3 4 5 6 7 8 9 10 11 12 by blast+
qed

lemma projected_outcome:
  "map_option (map_sum id g) r = Some (Inr v) \<Longrightarrow> \<exists>a. r = Some (Inr a) \<and> g a = v"
  by (cases r; cases "the r") auto

lemma projected_panic:
  "map_option (map_sum id g) r = Some (Inl e) \<Longrightarrow> r = Some (Inl e)"
  by (cases r; cases "the r") auto

lemma example_transfer:
  "map_option (map_sum id LCD)
     (Run_transfer 1 ClockFactor held_as_int
        (display_off (example_PPU\<lparr>FIFO := map Item_int [3, 2, 1, 1, 0, 0, 0, 0]\<rparr>)) 152) =
   Some (Inr [LCD_Write 3, LCD_Write 2, LCD_Write 1, LCD_Write 1, LCD_Write 0, LCD_Write 0,
              LCD_Write 0, LCD_Write 0, LCD_Blank])"
  by code_simp

lemma example_transfer_panic:
  "map_option (map_sum id LCD)
     (Run_transfer 2 ClockFactor Item_uint8 (display_off example_PPU) 0) =
   Some (Inl TypeAssertion)"
  by code_simp

lemma example_frame_panic:
  "map_option (map_sum id LCD)
     (Run_frames 1 2 ClockFactor Item_uint8 (display_off (example_PPU\<lparr>LY := 143\<rparr>))) =
   Some (Inl TypeAssertion)"
  by code_simp

lemma example_frame:
  "map_option
     (map_sum id (\<lambda>p. (Cycle p, PPU.ticks p, LY p, FIFO p, length (LCD p),
                        length (not_blank (LCD p)))))
     (Run_frames 1 21 ClockFactor held_as_int (display_off (example_PPU\<lparr>LY := 143\<rparr>))) =
   Some (Inr (21, 0, 0, map Item_int [0, 0, 0, 0, 0, 0, 0, 0], 174, 163))"
  by code_simp

text \<open>
  With the display-enable bit cleared, in the transfer phase, \<open>Pop\<close> hands an element that
  holds an \<open>int\<close> to the sink as fetched and panics on one that holds a \<open>uint8\<close>; in neither
  case does the sink receive \<open>Blank\<close>. An iteration of the transfer loop of \<open>Run\<close> hands over
  eight queued pixels before the one \<open>Blank\<close> of its \<open>Tick\<close>, and when the queue keeps the
  pushed pixels as \<open>uint8\<close>, the second iteration panics.
\<close>

theorem pop_ignores_display_enable:
  "LCDC (display_off example_PPU) AND LCDCDisplayEnable = 0 \<and>
   PPU.state (display_off example_PPU) = PixelTransfer \<and>
   FIFO (display_off example_PPU) = [Item_int 3] \<and>
   LCD (display_off example_PPU) = [] \<and>
   map_sum id (\<lambda>r. (LCD (fst r), FIFO (fst r), snd r)) (PPU_Pop (display_off example_PPU)) =
     Inr ([LCD_Write 3], [], 1) \<and>
   map_sum id (\<lambda>r. (LCD (fst r), FIFO (fst r), snd r)) (PPU_Pop (display_off example_PPU)) \<noteq>
     Inr ([LCD_Blank], [], 1) \<and>
   PPU_Pop (display_off (example_PPU\<lparr>FIFO := [Item_uint8 3]\<rparr>)) = Inl TypeAssertion \<and>
   map_option (map_sum id LCD)
     (Run_transfer 1 ClockFactor held_as_int
        (display_off (example_PPU\<lparr>FIFO := map Item_int [3, 2, 1, 1, 0, 0, 0, 0]\<rparr>)) 152) =
   Some (Inr [LCD_Write 3, LCD_Write 2, LCD_Write 1, LCD_Write 1, LCD_Write 0, LCD_Write 0,
              LCD_Write 0, LCD_Write 0, LCD_Blank]) \<and>
   Run_transfer 2 ClockFactor Item_uint8 (display_off example_PPU) 0 = Some (Inl TypeAssertion)"
proof -
  have "Run_transfer 2 ClockFactor Item_uint8 (display_off example_PPU) 0 =
          Some (Inl TypeAssertion)"
    using example_transfer_panic by (rule projected_panic)
  moreover have "PPU_Pop (display_off (example_PPU\<lparr>FIFO := [Item_uint8 3]\<rparr>)) =
                   Inl TypeAssertion"
    by (simp add: PPU_Pop_def fifo_Pop_def display_off_def)
  moreover have "map_sum id (\<lambda>r. (LCD (fst r), FIFO (fst r), snd r))
                   (PPU_Pop (display_off example_PPU)) = Inr ([LCD_Write 3], [], 1)"
    by (simp add: PPU_Pop_def fifo_Pop_def display_off_def example_PPU_def)
  moreover have "LCDC (display_off example_PPU) AND LCDCDisplayEnable = 0"
    by (rule display_bit(1))
  ultimately show ?thesis
    using example_transfer by (simp add: display_off_def example_PPU_def)
qed

theorem display_enable_only_adds_blank_witness:
  "LCD (PPU_Tick ClockFactor (display_off example_PPU)) = [LCD_Blank] \<and>
   LCD (PPU_Tick ClockFactor (display_on example_PPU)) = [] \<and>
   PPU_Pop (display_off (example_PPU\<lparr>FIFO := []\<rparr>)) =
     Inr (display_off (example_PPU\<lparr>FIFO := []\<rparr>), 0) \<and>
   PPU_Pop (display_off example_PPU) =
     Inr ((display_off example_PPU)\<lparr>FIFO := [], LCD := [LCD_Write 3]\<rparr>, 1) \<and>
   PPU_Pop (display_off (example_PPU\<lparr>FIFO := [Item_uint8 3]\<rparr>)) = Inl TypeAssertion \<and>
   (\<exists>a b. Run_transfer 1 ClockFactor held_as_int
             (display_off (example_PPU\<lparr>FIFO := map Item_int [3, 2, 1, 1, 0, 0, 0, 0]\<rparr>)) 152 =
             Some (Inr a) \<and>
          Run_transfer 1 ClockFactor held_as_int
             (display_on (example_PPU\<lparr>FIFO := map Item_int [3, 2, 1, 1, 0, 0, 0, 0]\<rparr>)) 152 =
             Some (Inr b) \<and>
          LCD a = [LCD_Write 3, LCD_Write 2, LCD_Write 1, LCD_Write 1, LCD_Write 0, LCD_Write 0,
                   LCD_Write 0, LCD_Write 0, LCD_Blank] \<and>
          not_blank (LCD b) = [LCD_Write 3, LCD_Write 2, LCD_Write 1, LCD_Write 1, LCD_Write 0,
                               LCD_Write 0, LCD_Write 0, LCD_Write 0] \<and>
          Cycle a = Cycle b \<and> PPU.ticks a = PPU.ticks b) \<and>
   (\<exists>a b. Run_frames 1 21 ClockFactor held_as_int (display_off (example_PPU\<lparr>LY := 143\<rparr>)) =
             Some (Inr a) \<and>
          Run_frames 1 21 ClockFactor held_as_int (display_on (example_PPU\<lparr>LY := 143\<rparr>)) =
             Some (Inr b) \<and>
          Cycle a = 21 \<and> Cycle b = 21 \<and> PPU.ticks a = 0 \<and> PPU.ticks b = 0 \<and>
          LY a = 0 \<and> LY b = 0 \<and>
          FIFO a = map Item_int [0, 0, 0, 0, 0, 0, 0, 0] \<and> FIFO b = FIFO a \<and>
          length (LCD a) = 174 \<and> length (not_blank (LCD a)) = 163 \<and>
          not_blank (LCD b) = not_blank (LCD a)) \<and>
   Run_frames 1 2 ClockFactor Item_uint8 (display_off (example_PPU\<lparr>LY := 143\<rparr>)) =
     Some (Inl TypeAssertion) \<and>
   Run_frames 1 2 ClockFactor Item_uint8 (display_on (example_PPU\<lparr>LY := 143\<rparr>)) =
     Some (Inl TypeAssertion)"
proof -
  let ?p0 = "example_PPU\<lparr>FIFO := []\<rparr>"
  let ?pu = "example_PPU\<lparr>FIFO := [Item_uint8 3]\<rparr>"
  let ?p8 = "example_PPU\<lparr>FIFO := map Item_int [3, 2, 1, 1, 0, 0, 0, 0]\<rparr>"
  let ?pv = "example_PPU\<lparr>LY := 143\<rparr>"
  let ?row = "[LCD_Write 3, LCD_Write 2, LCD_Write 1, LCD_Write 1, LCD_Write 0, LCD_Write 0,
               LCD_Write 0, LCD_Write 0]"
  note t = display_enable_only_adds_blank[where cf=ClockFactor and p=example_PPU and fuel=0
      and n=0 and x=0 and held=Item_uint8]
  have e: "LCD example_PPU = []" "\<not> PPU.ticks example_PPU + 1 < ClockFactor"
    "FIFO example_PPU = [Item_int 3]"
    by (simp_all add: example_PPU_def ClockFactor_def)
  have "LCD (PPU_Tick ClockFactor (display_off example_PPU)) =
          LCD example_PPU @ (if PPU.ticks example_PPU + 1 < ClockFactor then [] else [LCD_Blank])"
    "LCD (PPU_Tick ClockFactor (display_on example_PPU)) = LCD example_PPU"
    using t by blast+
  then have 1: "LCD (PPU_Tick ClockFactor (display_off example_PPU)) = [LCD_Blank]"
    "LCD (PPU_Tick ClockFactor (display_on example_PPU)) = []"
    using e by simp_all
  have "FIFO ?p0 = []" by simp
  then have 2: "PPU_Pop (display_off ?p0) = Inr (display_off ?p0, 0)"
    using display_enable_only_adds_blank[where cf=ClockFactor and p="?p0" and fuel=0
        and n=0 and x=0 and held=Item_uint8]
    by blast
  have "PPU_Pop (display_off example_PPU) =
          Inr ((display_off example_PPU)\<lparr>FIFO := [], LCD := LCD example_PPU @ [LCD_Write 3]\<rparr>, 1)"
    using t e(3) by blast
  then have 3: "PPU_Pop (display_off example_PPU) =
             Inr ((display_off example_PPU)\<lparr>FIFO := [], LCD := [LCD_Write 3]\<rparr>, 1)"
    using e(1) by simp
  have "FIFO ?pu = [Item_uint8 3]" by simp
  then have 4: "PPU_Pop (display_off ?pu) = Inl TypeAssertion"
    using display_enable_only_adds_blank[where cf=ClockFactor and p="?pu" and fuel=0
        and n=0 and x=0 and held=Item_uint8]
    by blast
  obtain a where a: "Run_transfer 1 ClockFactor held_as_int (display_off ?p8) 152 = Some (Inr a)"
    "LCD a = ?row @ [LCD_Blank]"
    using projected_outcome[OF example_transfer] by auto
  have "same_outcome (Run_transfer 1 ClockFactor held_as_int (display_off ?p8) 152)
          (Run_transfer 1 ClockFactor held_as_int (display_on ?p8) 152)"
    using display_enable_only_adds_blank[where cf=ClockFactor and p="?p8" and fuel=1 and x=152
        and held=held_as_int]
    by blast
  then obtain b where b: "Run_transfer 1 ClockFactor held_as_int (display_on ?p8) 152 =
                            Some (Inr b)"
    "same_but_blank a b"
    using same_outcome_Inr a(1) by blast
  have nb: "not_blank (LCD b) = ?row"
    using same_but_blank_fields[OF b(2)] a(2) by (simp add: not_blank_def)
  obtain c where c: "Run_frames 1 21 ClockFactor held_as_int (display_off ?pv) = Some (Inr c)"
    "Cycle c = 21" "PPU.ticks c = 0" "LY c = 0"
    "FIFO c = map Item_int [0, 0, 0, 0, 0, 0, 0, 0]"
    "length (LCD c) = 174" "length (not_blank (LCD c)) = 163"
    using projected_outcome[OF example_frame] by auto
  obtain d where d: "Run_frames 1 21 ClockFactor held_as_int (display_on ?pv) = Some (Inr d)"
    "Cycle c = Cycle d" "PPU.ticks c = PPU.ticks d" "LY c = LY d" "FIFO c = FIFO d"
    "not_blank (LCD c) = not_blank (LCD d)"
    using display_enable_only_adds_blank[where cf=ClockFactor and p="?pv" and n=1 and fuel=21
        and held=held_as_int] c(1)
    by blast
  have 5: "Run_frames 1 2 ClockFactor Item_uint8 (display_off ?pv) = Some (Inl TypeAssertion)"
    using example_frame_panic by (rule projected_panic)
  have 6: "Run_frames 1 2 ClockFactor Item_uint8 (display_on ?pv) = Some (Inl TypeAssertion)"
    using display_enable_only_adds_blank[where cf=ClockFactor and p="?pv" and n=1 and fuel=2
        and held=Item_uint8] 5
    by blast
  have 7: "\<exists>a b. Run_transfer 1 ClockFactor held_as_int (display_off ?p8) 152 = Some (Inr a) \<and>
          Run_transfer 1 ClockFactor held_as_int (display_on ?p8) 152 = Some (Inr b) \<and>
          LCD a = ?row @ [LCD_Blank] \<and> not_blank (LCD b) = ?row \<and>
          Cycle a = Cycle b \<and> PPU.ticks a = PPU.ticks b"
    using a b(1) nb same_but_blank_fields[OF b(2)] by blast
  have 8: "\<exists>a b. Run_frames 1 21 ClockFactor held_as_int (display_off ?pv) = Some (Inr a) \<and>
          Run_frames 1 21 ClockFactor held_as_int (display_on ?pv) = Some (Inr b) \<and>
          Cycle a = 21 \<and> Cycle b = 21 \<and> PPU.ticks a = 0 \<and> PPU.ticks b = 0 \<and>
          LY a = 0 \<and> LY b = 0 \<and>
          FIFO a = map Item_int [0, 0, 0, 0, 0, 0, 0, 0] \<and> FIFO b = FIFO a \<and>
          length (LCD a) = 174 \<and> length (not_blank (LCD a)) = 163 \<and>
          not_blank (LCD b) = not_blank (LCD a)"
    using c d by (intro exI[of _ c] exI[of _ d]) simp
  show ?thesis
    using 1 2 3 4 5 6 7 8 by (intro conjI) simp_all
qed

end
